theory Spec2Isabelle
  imports Main "HOL-Library.Word" "HOL-Library.Sublist"
begin

unbundle bit_operations_syntax

section \<open>Materialized view refresh (src/backend/commands/matview.c)\<close>

text \<open>
  A shallow embedding of \<^verbatim>\<open>matview.c\<close>: \<^verbatim>\<open>SetMatViewToPopulated\<close>,
  \<^verbatim>\<open>ExecRefreshMatView\<close>, \<^verbatim>\<open>refresh_matview_datafill\<close> and the
  \<^verbatim>\<open>DR_transientrel\<close> tuple receiver. The C code is a sequence of calls into the
  rest of the backend, so the model is a state-and-error monad over a \<open>world\<close> record:
  the relation cache, the storage manager's files, the OID counter, the active-snapshot
  stack, the command counter, and the trace of the backend calls that have returned.
  \<^verbatim>\<open>ereport(ERROR)\<close> and \<^verbatim>\<open>elog(ERROR)\<close> do not return in C; here they are the
  \<open>Inl\<close> results, paired with the world at the moment of the raise.
\<close>

subsection \<open>Data\<close>

type_synonym Oid = nat
type_synonym CommandId = nat
type_synonym BlockNumber = nat
type_synonym HeapTuple = "int list"
type_synonym PlannedStmt = nat

datatype CmdType = CMD_UNKNOWN | CMD_SELECT | CMD_UPDATE | CMD_INSERT | CMD_DELETE
  | CMD_UTILITY | CMD_NOTHING

datatype RelKind = RELKIND_RELATION | RELKIND_INDEX | RELKIND_SEQUENCE | RELKIND_TOASTVALUE
  | RELKIND_VIEW | RELKIND_COMPOSITE_TYPE | RELKIND_FOREIGN_TABLE | RELKIND_MATVIEW

record RangeTblEntry =
  aliasname :: string
  isResultRel :: bool

record Query =
  commandType :: CmdType
  rtable :: "RangeTblEntry list"
  querySource :: string

record RewriteRule =
  event :: CmdType
  isInstead :: bool
  actions :: "Query list"

text \<open>
  A relation-cache entry, with the fields of \<^verbatim>\<open>RelationData\<close> and of its
  \<^verbatim>\<open>rd_rel\<close> (the \<^verbatim>\<open>pg_class\<close> row) that matview.c reads. \<open>rd_rules\<close> is the rule
  array of the rule lock, \<^verbatim>\<open>numLocks\<close> its length; the relation cache leaves the C
  pointer NULL exactly when \<open>relhasrules\<close> is false, where the code does not read it.
  \<open>open_scans\<close> counts the uses of the relation that the current transaction still
  holds (what \<^verbatim>\<open>CheckTableNotInUse\<close> looks at).
\<close>

record RelationData =
  relkind :: RelKind
  relhasoids :: bool
  relhasrules :: bool
  rd_rules :: "RewriteRule list"
  reltablespace :: Oid
  rd_node :: Oid
  relpersistence_permanent :: bool
  rd_ispopulated :: bool
  rd_issystem :: bool
  open_scans :: nat

record Page =
  pd_initialized :: bool
  pd_checksummed :: bool
  pd_items :: "HeapTuple list"

text \<open>
  One storage object (the main fork of a relfilenode): its blocks, whether everything
  written to it has reached stable storage, and the insertion target block of the
  storage-manager handle.
\<close>

record SMgrFile =
  blocks :: "Page list"
  synced :: bool
  smgr_targblock :: "BlockNumber option"

record SnapshotData =
  snap_xmin :: nat
  curcid :: CommandId

record RefreshMatViewStmt =
  skipData :: bool
  relation :: string

record DR_transientrel =
  transientoid :: Oid
  transientrel :: "Oid option"
  output_cid :: CommandId
  hi_options :: "32 word"
  bistate :: bool

record QueryDesc =
  plannedstmt :: PlannedStmt
  sourceText :: string
  snapshot :: SnapshotData
  dest :: DR_transientrel

text \<open>The calls into the rest of the backend, with the arguments that matter.\<close>

datatype xcall =
    X_RangeVarGetRelidExtended string
  | X_heap_open Oid
  | X_heap_close Oid
  | X_CheckTableNotInUse Oid
  | X_make_new_heap Oid Oid
  | X_finish_heap_swap Oid Oid
  | X_RelationCacheInvalidateEntry Oid
  | X_QueryRewrite Query
  | X_CHECK_FOR_INTERRUPTS
  | X_pg_plan_query Query
  | X_PushCopiedSnapshot
  | X_UpdateActiveSnapshotCommandId
  | X_CreateQueryDesc PlannedStmt
  | X_ExecutorStart PlannedStmt
  | X_ExecProcNode HeapTuple
  | X_ExecutorFinish PlannedStmt
  | X_ExecutorEnd PlannedStmt
  | X_FreeQueryDesc PlannedStmt
  | X_PopActiveSnapshot
  | X_log_newpage Oid BlockNumber
  | X_RelationOpenSmgr Oid
  | X_smgrextend Oid BlockNumber
  | X_smgrimmedsync Oid
  | X_GetBulkInsertState
  | X_FreeBulkInsertState
  | X_heap_insert Oid HeapTuple CommandId "32 word"
  | X_heap_sync Oid

datatype sqlstate = ERRCODE_FEATURE_NOT_SUPPORTED | ERRCODE_OBJECT_IN_USE
  | ERRCODE_UNDEFINED_TABLE

text \<open>
  \<open>Ereport\<close> is a user-facing \<^verbatim>\<open>ereport(ERROR, (errcode(...), errmsg(...)))\<close>, \<open>Elog\<close>
  an internal \<^verbatim>\<open>elog(ERROR, ...)\<close>, \<open>Raised c\<close> an error raised inside the backend
  call \<open>c\<close>, \<open>TrapAssert\<close> a failed \<^verbatim>\<open>Assert\<close> of an assert-enabled build, and
  \<open>Segfault\<close> a read through a NULL list cell or pointer.
\<close>

datatype error =
    Ereport sqlstate string
  | Elog string
  | Raised xcall
  | TrapAssert string
  | Segfault string

record world =
  rels :: "Oid \<rightharpoonup> RelationData"
  smgr :: "Oid \<rightharpoonup> SMgrFile"
  nextOid :: Oid
  ActiveSnapshot :: "SnapshotData list"
  currentCommandId :: CommandId
  trace :: "xcall list"

text \<open>
  What the model takes from outside matview.c as parameters: which backend calls raise
  (\<open>fails\<close>, given the calls made so far and the call about to be made: any callee may
  raise at any time), name resolution, the WAL level behind \<^verbatim>\<open>XLogIsNeeded()\<close>, the
  rewriter, the planner, the rows a plan yields under a snapshot, whether
  \<^verbatim>\<open>Assert\<close> is compiled in, and whether a tuple still fits on a page that already
  holds some (\<open>tuple_fits\<close>: \<^verbatim>\<open>BLCKSZ\<close> and the page layout are not part of the sources).
\<close>

record env =
  fails :: "xcall list \<Rightarrow> xcall \<Rightarrow> bool"
  resolve :: "string \<Rightarrow> Oid option"
  XLogIsNeeded :: bool
  rewriter :: "Query \<Rightarrow> Query list"
  planner :: "Query \<Rightarrow> PlannedStmt"
  plan_rows :: "PlannedStmt \<Rightarrow> SnapshotData \<Rightarrow> HeapTuple list"
  assert_enabled :: bool
  tuple_fits :: "Page \<Rightarrow> HeapTuple \<Rightarrow> bool"

subsection \<open>The monad\<close>

type_synonym 'a act = "world \<Rightarrow> (error + 'a) \<times> world"

definition ret :: "'a \<Rightarrow> 'a act" where
  "ret x w = (Inr x, w)"

definition raise :: "error \<Rightarrow> 'a act" where
  "raise e w = (Inl e, w)"

definition bnd :: "'a act \<Rightarrow> ('a \<Rightarrow> 'b act) \<Rightarrow> 'b act" where
  "bnd m f w = (case m w of (Inl e, w') \<Rightarrow> (Inl e, w') | (Inr x, w') \<Rightarrow> f x w')"

definition Assert :: "env \<Rightarrow> bool \<Rightarrow> string \<Rightarrow> unit act" where
  "Assert E b msg = (if assert_enabled E \<and> \<not> b then raise (TrapAssert msg) else ret ())"

text \<open>
  A backend call \<open>c\<close> whose body is \<open>body\<close>: it raises where the environment says so or
  where its own body does, leaving the world as it was; otherwise it returns the body's
  result and is appended to the trace.
\<close>

definition extern :: "env \<Rightarrow> xcall \<Rightarrow> (world \<Rightarrow> error + 'a \<times> world) \<Rightarrow> 'a act" where
  "extern E c body w =
     (if fails E (trace w) c then (Inl (Raised c), w)
      else (case body w of
              Inl e \<Rightarrow> (Inl e, w)
            | Inr (x, w') \<Rightarrow> (Inr x, w'\<lparr>trace := trace w @ [c]\<rparr>)))"

text \<open>Reading a field through a \<^verbatim>\<open>Relation\<close> pointer (here: the OID of the entry).\<close>

definition deref :: "Oid \<Rightarrow> RelationData act" where
  "deref r w = (case rels w r of None \<Rightarrow> (Inl (Segfault ''Relation''), w)
                | Some rd \<Rightarrow> (Inr rd, w))"

subsection \<open>The backend calls\<close>

text \<open>
  \<^verbatim>\<open>HEAP_INSERT_SKIP_WAL\<close>, \<^verbatim>\<open>HEAP_INSERT_SKIP_FSM\<close> and \<^verbatim>\<open>HEAP_INSERT_FROZEN\<close>
  (access/heapam.h): three distinct bits of the options word.
\<close>

definition HEAP_INSERT_SKIP_WAL :: "32 word" where "HEAP_INSERT_SKIP_WAL = 1"
definition HEAP_INSERT_SKIP_FSM :: "32 word" where "HEAP_INSERT_SKIP_FSM = 2"
definition HEAP_INSERT_FROZEN :: "32 word" where "HEAP_INSERT_FROZEN = 4"

definition PageInit :: Page where
  "PageInit = \<lparr>pd_initialized = True, pd_checksummed = False, pd_items = []\<rparr>"

definition PageSetChecksumInplace :: "Page \<Rightarrow> Page" where
  "PageSetChecksumInplace p = p\<lparr>pd_checksummed := True\<rparr>"

definition RelationNeedsWAL :: "RelationData \<Rightarrow> bool" where
  "RelationNeedsWAL rd = relpersistence_permanent rd"

text \<open>
  Modelled from the spec: how the relation cache computes \<open>rd_ispopulated\<close> when it
  builds an entry (relcache.c is not part of the sources). "A storage object is
  considered well-formed for scanning only if it has at least an initialized first page",
  and the flag only concerns materialized views.
\<close>

definition relcache_ispopulated :: "RelKind \<Rightarrow> SMgrFile option \<Rightarrow> bool" where
  "relcache_ispopulated k f =
     (\<not> (k = RELKIND_MATVIEW \<and> (case f of None \<Rightarrow> True | Some x \<Rightarrow> blocks x = [])))"

text \<open>
  Modelled from the spec: cache invalidation by identity (inval/relcache code is not part
  of the sources). The entry is rebuilt, so that later readers see the state of the
  storage the entry now points to.
\<close>

definition RelationCacheInvalidateEntry :: "env \<Rightarrow> Oid \<Rightarrow> unit act" where
  "RelationCacheInvalidateEntry E r =
     extern E (X_RelationCacheInvalidateEntry r) (\<lambda>w.
       Inr ((), (case rels w r of None \<Rightarrow> w
                 | Some rd \<Rightarrow> w\<lparr>rels := (rels w)(r \<mapsto>
                     rd\<lparr>rd_ispopulated :=
                          relcache_ispopulated (relkind rd) (smgr w (rd_node rd))\<rparr>)\<rparr>)))"

text \<open>
  Modelled from the spec: identity resolution and locking (namespace.c is not part of the
  sources): the name resolves to an identity or the call fails.
\<close>

definition RangeVarGetRelidExtended :: "env \<Rightarrow> string \<Rightarrow> Oid act" where
  "RangeVarGetRelidExtended E rv =
     extern E (X_RangeVarGetRelidExtended rv) (\<lambda>w.
       case resolve E rv of
         None \<Rightarrow> Inl (Ereport ERRCODE_UNDEFINED_TABLE ''relation does not exist'')
       | Some r \<Rightarrow> Inr (r, w))"

definition heap_open :: "env \<Rightarrow> Oid \<Rightarrow> Oid act" where
  "heap_open E r =
     extern E (X_heap_open r) (\<lambda>w.
       case rels w r of
         None \<Rightarrow> Inl (Elog ''could not open relation'')
       | Some rd \<Rightarrow> Inr (r, w))"

definition heap_close :: "env \<Rightarrow> Oid \<Rightarrow> unit act" where
  "heap_close E r = extern E (X_heap_close r) (\<lambda>w. Inr ((), w))"

text \<open>
  Modelled from the spec: the active-use check (tablecmds.c is not part of the sources).
  It fails with a concurrency error when the transaction still has the relation in use
  (open scans, cursors).
\<close>

definition CheckTableNotInUse :: "env \<Rightarrow> Oid \<Rightarrow> unit act" where
  "CheckTableNotInUse E r =
     extern E (X_CheckTableNotInUse r) (\<lambda>w.
       case rels w r of
         None \<Rightarrow> Inl (Segfault ''Relation'')
       | Some rd \<Rightarrow>
           if 0 < open_scans rd
           then Inl (Ereport ERRCODE_OBJECT_IN_USE ''relation is being used by active queries in this session'')
           else Inr ((), w))"

text \<open>
  Modelled from the spec: creation of the transient storage object (cluster.c is not part
  of the sources): "a new, empty transient storage object in the same tablespace,
  associated with an internally-generated identity distinct from the view's own
  identity", of the same kind and persistence as the old heap. Identities come from the
  OID counter. The new heap has no block: it "starts out in a state that doesn't look
  scannable" (the comment of \<^verbatim>\<open>SetMatViewToPopulated\<close>).
\<close>

definition empty_file :: SMgrFile where
  "empty_file = \<lparr>blocks = [], synced = True, smgr_targblock = None\<rparr>"

definition new_heap_entry :: "RelationData \<Rightarrow> Oid \<Rightarrow> Oid \<Rightarrow> RelationData" where
  "new_heap_entry old ts n =
     \<lparr>relkind = relkind old, relhasoids = relhasoids old,
      relhasrules = False, rd_rules = [],
      reltablespace = ts, rd_node = n,
      relpersistence_permanent = relpersistence_permanent old,
      rd_ispopulated = relcache_ispopulated (relkind old) (Some empty_file),
      rd_issystem = False, open_scans = 0\<rparr>"

definition make_new_heap :: "env \<Rightarrow> Oid \<Rightarrow> Oid \<Rightarrow> Oid act" where
  "make_new_heap E OIDOldHeap NewTableSpace =
     extern E (X_make_new_heap OIDOldHeap NewTableSpace) (\<lambda>w.
       case rels w OIDOldHeap of
         None \<Rightarrow> Inl (Elog ''could not open relation'')
       | Some old \<Rightarrow>
           let n = nextOid w
           in Inr (n, w\<lparr>rels := (rels w)(n \<mapsto> new_heap_entry old NewTableSpace n),
                        smgr := (smgr w)(n \<mapsto> empty_file),
                        nextOid := Suc n\<rparr>))"

text \<open>
  Modelled from the spec: the swap utility (cluster.c is not part of the sources):
  "exchanging two storage objects' on-disk identities so a logical identity starts
  pointing at different physical data, atomically"; the transient relation is dropped
  and the old storage reclaimed. The cached \<open>rd_ispopulated\<close> of the target is left to
  the invalidation that the caller issues next.
\<close>

definition finish_heap_swap :: "env \<Rightarrow> Oid \<Rightarrow> Oid \<Rightarrow> unit act" where
  "finish_heap_swap E OIDOldHeap OIDNewHeap =
     extern E (X_finish_heap_swap OIDOldHeap OIDNewHeap) (\<lambda>w.
       case rels w OIDOldHeap of
         None \<Rightarrow> Inl (Elog ''could not open relation'')
       | Some old \<Rightarrow>
          (case rels w OIDNewHeap of
             None \<Rightarrow> Inl (Elog ''could not open relation'')
           | Some new \<Rightarrow>
               Inr ((), w\<lparr>rels := ((rels w)(OIDOldHeap \<mapsto> old\<lparr>rd_node := rd_node new\<rparr>))
                                    (OIDNewHeap := None),
                          smgr := (smgr w)(rd_node old := None)\<rparr>)))"

definition QueryRewrite :: "env \<Rightarrow> Query \<Rightarrow> Query list act" where
  "QueryRewrite E q = extern E (X_QueryRewrite q) (\<lambda>w. Inr (rewriter E q, w))"

definition CHECK_FOR_INTERRUPTS :: "env \<Rightarrow> unit act" where
  "CHECK_FOR_INTERRUPTS E = extern E X_CHECK_FOR_INTERRUPTS (\<lambda>w. Inr ((), w))"

definition pg_plan_query :: "env \<Rightarrow> Query \<Rightarrow> PlannedStmt act" where
  "pg_plan_query E q = extern E (X_pg_plan_query q) (\<lambda>w. Inr (planner E q, w))"

text \<open>The snapshot manager (utils/snapmgr.h): a stack of active snapshots.\<close>

definition GetActiveSnapshot :: "SnapshotData act" where
  "GetActiveSnapshot w = (case ActiveSnapshot w of
                            [] \<Rightarrow> (Inl (Segfault ''ActiveSnapshot''), w)
                          | s # _ \<Rightarrow> (Inr s, w))"

definition PushCopiedSnapshot :: "env \<Rightarrow> SnapshotData \<Rightarrow> unit act" where
  "PushCopiedSnapshot E s =
     extern E X_PushCopiedSnapshot (\<lambda>w.
       Inr ((), w\<lparr>ActiveSnapshot := s # ActiveSnapshot w\<rparr>))"

definition UpdateActiveSnapshotCommandId :: "env \<Rightarrow> unit act" where
  "UpdateActiveSnapshotCommandId E =
     extern E X_UpdateActiveSnapshotCommandId (\<lambda>w.
       case ActiveSnapshot w of
         [] \<Rightarrow> Inl (Segfault ''ActiveSnapshot'')
       | s # ss \<Rightarrow> Inr ((), w\<lparr>ActiveSnapshot := s\<lparr>curcid := currentCommandId w\<rparr> # ss\<rparr>))"

definition PopActiveSnapshot :: "env \<Rightarrow> unit act" where
  "PopActiveSnapshot E =
     extern E X_PopActiveSnapshot (\<lambda>w.
       case ActiveSnapshot w of
         [] \<Rightarrow> Inl (Segfault ''ActiveSnapshot'')
       | s # ss \<Rightarrow> Inr ((), w\<lparr>ActiveSnapshot := ss\<rparr>))"

definition GetCurrentCommandId :: "CommandId act" where
  "GetCurrentCommandId w = (Inr (currentCommandId w), w)"

definition CreateQueryDesc ::
  "env \<Rightarrow> PlannedStmt \<Rightarrow> string \<Rightarrow> SnapshotData \<Rightarrow> DR_transientrel \<Rightarrow> QueryDesc act" where
  "CreateQueryDesc E p qs s d =
     extern E (X_CreateQueryDesc p) (\<lambda>w.
       Inr (\<lparr>plannedstmt = p, sourceText = qs, snapshot = s, dest = d\<rparr>, w))"

definition ExecutorStart :: "env \<Rightarrow> QueryDesc \<Rightarrow> unit act" where
  "ExecutorStart E qd = extern E (X_ExecutorStart (plannedstmt qd)) (\<lambda>w. Inr ((), w))"

definition ExecutorFinish :: "env \<Rightarrow> QueryDesc \<Rightarrow> unit act" where
  "ExecutorFinish E qd = extern E (X_ExecutorFinish (plannedstmt qd)) (\<lambda>w. Inr ((), w))"

definition ExecutorEnd :: "env \<Rightarrow> QueryDesc \<Rightarrow> unit act" where
  "ExecutorEnd E qd = extern E (X_ExecutorEnd (plannedstmt qd)) (\<lambda>w. Inr ((), w))"

definition FreeQueryDesc :: "env \<Rightarrow> QueryDesc \<Rightarrow> unit act" where
  "FreeQueryDesc E qd = extern E (X_FreeQueryDesc (plannedstmt qd)) (\<lambda>w. Inr ((), w))"

text \<open>The storage manager and the heap access method, on the files of \<open>smgr\<close>.\<close>

definition log_newpage :: "env \<Rightarrow> Oid \<Rightarrow> BlockNumber \<Rightarrow> Page \<Rightarrow> unit act" where
  "log_newpage E node blk p = extern E (X_log_newpage node blk) (\<lambda>w. Inr ((), w))"

definition RelationOpenSmgr :: "env \<Rightarrow> Oid \<Rightarrow> unit act" where
  "RelationOpenSmgr E r = extern E (X_RelationOpenSmgr r) (\<lambda>w. Inr ((), w))"

text \<open>
  \<^verbatim>\<open>smgrextend\<close> writes the page at the given block number, which is the first block
  past the end when the caller extends the file as intended; blocks in between would be
  zero pages.
\<close>

definition zero_page :: Page where
  "zero_page = \<lparr>pd_initialized = False, pd_checksummed = False, pd_items = []\<rparr>"

definition write_block :: "Page list \<Rightarrow> BlockNumber \<Rightarrow> Page \<Rightarrow> Page list" where
  "write_block bs blk p =
     (if blk < length bs then bs[blk := p]
      else bs @ replicate (blk - length bs) zero_page @ [p])"

definition smgrextend :: "env \<Rightarrow> Oid \<Rightarrow> BlockNumber \<Rightarrow> Page \<Rightarrow> bool \<Rightarrow> unit act" where
  "smgrextend E node blk p skipFsync =
     extern E (X_smgrextend node blk) (\<lambda>w.
       case smgr w node of
         None \<Rightarrow> Inl (Elog ''could not extend file'')
       | Some f \<Rightarrow> Inr ((), w\<lparr>smgr := (smgr w)(node \<mapsto>
                        f\<lparr>blocks := write_block (blocks f) blk p, synced := False\<rparr>)\<rparr>))"

definition smgrimmedsync :: "env \<Rightarrow> Oid \<Rightarrow> unit act" where
  "smgrimmedsync E node =
     extern E (X_smgrimmedsync node) (\<lambda>w.
       case smgr w node of
         None \<Rightarrow> Inl (Elog ''could not fsync file'')
       | Some f \<Rightarrow> Inr ((), w\<lparr>smgr := (smgr w)(node \<mapsto> f\<lparr>synced := True\<rparr>)\<rparr>))"

definition GetBulkInsertState :: "env \<Rightarrow> bool act" where
  "GetBulkInsertState E = extern E X_GetBulkInsertState (\<lambda>w. Inr (True, w))"

definition FreeBulkInsertState :: "env \<Rightarrow> bool \<Rightarrow> unit act" where
  "FreeBulkInsertState E b = extern E X_FreeBulkInsertState (\<lambda>w. Inr ((), w))"

text \<open>
  \<^verbatim>\<open>heap_insert\<close> puts the tuple on the last block of the relation when it fits there,
  and otherwise extends the relation by a freshly initialized block that takes the tuple
  (also when the relation has no block yet); it remembers the block used as the
  insertion target.
\<close>

definition add_tuple :: "env \<Rightarrow> Page list \<Rightarrow> HeapTuple \<Rightarrow> Page list" where
  "add_tuple E bs t =
     (if bs \<noteq> [] \<and> tuple_fits E (last bs) t
      then butlast bs @ [(last bs)\<lparr>pd_items := pd_items (last bs) @ [t]\<rparr>]
      else bs @ [PageInit\<lparr>pd_items := [t]\<rparr>])"

definition heap_insert ::
  "env \<Rightarrow> Oid \<Rightarrow> HeapTuple \<Rightarrow> CommandId \<Rightarrow> 32 word \<Rightarrow> bool \<Rightarrow> unit act" where
  "heap_insert E r tup cid options bi =
     extern E (X_heap_insert r tup cid options) (\<lambda>w.
       case rels w r of
         None \<Rightarrow> Inl (Segfault ''Relation'')
       | Some rd \<Rightarrow>
          (case smgr w (rd_node rd) of
             None \<Rightarrow> Inl (Elog ''could not open file'')
           | Some f \<Rightarrow>
               let bs = add_tuple E (blocks f) tup
               in Inr ((), w\<lparr>smgr := (smgr w)(rd_node rd \<mapsto>
                         f\<lparr>blocks := bs, synced := False,
                           smgr_targblock := Some (length bs - 1)\<rparr>)\<rparr>)))"

definition heap_sync :: "env \<Rightarrow> Oid \<Rightarrow> unit act" where
  "heap_sync E r =
     extern E (X_heap_sync r) (\<lambda>w.
       case rels w r of
         None \<Rightarrow> Inl (Segfault ''Relation'')
       | Some rd \<Rightarrow>
          (case smgr w (rd_node rd) of
             None \<Rightarrow> Inl (Elog ''could not open file'')
           | Some f \<Rightarrow> Inr ((), w\<lparr>smgr := (smgr w)(rd_node rd \<mapsto> f\<lparr>synced := True\<rparr>)\<rparr>)))"

definition RelationGetTargetBlock :: "Oid \<Rightarrow> BlockNumber option act" where
  "RelationGetTargetBlock r =
     bnd (deref r) (\<lambda>rd w.
       (Inr (case smgr w (rd_node rd) of None \<Rightarrow> None | Some f \<Rightarrow> smgr_targblock f), w))"

subsection \<open>matview.c\<close>

text \<open>
  \<^verbatim>\<open>SetMatViewToPopulated\<close> (lines 63-87). \<^verbatim>\<open>palloc\<close> and \<^verbatim>\<open>pfree\<close> of the page
  buffer are memory management and have no counterpart here.
\<close>

definition SetMatViewToPopulated :: "env \<Rightarrow> Oid \<Rightarrow> unit act" where
  "SetMatViewToPopulated E rel =
     bnd (deref rel) (\<lambda>rd.
     bnd (Assert E (relkind rd = RELKIND_MATVIEW) ''relkind == RELKIND_MATVIEW'') (\<lambda>_.
     bnd (Assert E (rd_ispopulated rd = False) ''rd_ispopulated == false'') (\<lambda>_.
     bnd (ret PageInit) (\<lambda>page.
     bnd (if RelationNeedsWAL rd then log_newpage E (rd_node rd) 0 page else ret ()) (\<lambda>_.
     bnd (RelationOpenSmgr E rel) (\<lambda>_.
     bnd (ret (PageSetChecksumInplace page)) (\<lambda>page.
     bnd (smgrextend E (rd_node rd) 0 page True) (\<lambda>_.
     bnd (smgrimmedsync E (rd_node rd)) (\<lambda>_.
     RelationCacheInvalidateEntry E rel)))))))))"

text \<open>\<^verbatim>\<open>CreateTransientRelDestReceiver\<close> (lines 284-297): \<^verbatim>\<open>palloc0\<close> zeroes the fields.\<close>

definition CreateTransientRelDestReceiver :: "Oid \<Rightarrow> DR_transientrel" where
  "CreateTransientRelDestReceiver oid =
     \<lparr>transientoid = oid, transientrel = None, output_cid = 0, hi_options = 0,
      bistate = False\<rparr>"

text \<open>\<^verbatim>\<open>transientrel_startup\<close> (lines 302-329); the updated receiver is returned.\<close>

definition transientrel_startup :: "env \<Rightarrow> DR_transientrel \<Rightarrow> DR_transientrel act" where
  "transientrel_startup E myState =
     bnd (heap_open E (transientoid myState)) (\<lambda>trel.
     bnd GetCurrentCommandId (\<lambda>cid.
     bnd (ret (HEAP_INSERT_SKIP_FSM OR HEAP_INSERT_FROZEN)) (\<lambda>opts.
     bnd (ret (if \<not> XLogIsNeeded E then opts OR HEAP_INSERT_SKIP_WAL else opts)) (\<lambda>opts.
     bnd (GetBulkInsertState E) (\<lambda>bi.
     bnd (SetMatViewToPopulated E trel) (\<lambda>_.
     bnd (RelationGetTargetBlock trel) (\<lambda>tb.
     bnd (Assert E (tb = None) ''RelationGetTargetBlock(transientrel) == InvalidBlockNumber'') (\<lambda>_.
     ret (myState\<lparr>transientrel := Some trel, output_cid := cid, hi_options := opts,
                  bistate := bi\<rparr>)))))))))"

text \<open>
  \<^verbatim>\<open>transientrel_receive\<close> (lines 334-353). \<^verbatim>\<open>ExecMaterializeSlot\<close> hands out the
  tuple of the slot.
\<close>

definition transientrel_receive :: "env \<Rightarrow> HeapTuple \<Rightarrow> DR_transientrel \<Rightarrow> unit act" where
  "transientrel_receive E slot myState =
     (case transientrel myState of
        None \<Rightarrow> raise (Segfault ''transientrel'')
      | Some trel \<Rightarrow>
          heap_insert E trel slot (output_cid myState) (hi_options myState) (bistate myState))"

text \<open>
  \<^verbatim>\<open>transientrel_shutdown\<close> (lines 358-372). \<^verbatim>\<open>transientrel_destroy\<close> (lines 377-381)
  only frees the receiver and is not called in this file.
\<close>

definition transientrel_shutdown :: "env \<Rightarrow> DR_transientrel \<Rightarrow> DR_transientrel act" where
  "transientrel_shutdown E myState =
     bnd (FreeBulkInsertState E (bistate myState)) (\<lambda>_.
     case transientrel myState of
        None \<Rightarrow> raise (Segfault ''transientrel'')
      | Some trel \<Rightarrow>
     bnd (if hi_options myState AND HEAP_INSERT_SKIP_WAL \<noteq> 0 then heap_sync E trel
          else ret ()) (\<lambda>_.
     bnd (heap_close E trel) (\<lambda>_.
     ret (myState\<lparr>transientrel := None\<rparr>))))"

text \<open>
  Modelled from the spec: the execution engine (execMain.c is not part of the sources).
  It "drives the sink's open/receive/close sequence": open once, then one receive per
  row the plan yields, in order, then close. Fetching a row is a backend call of its
  own (\<open>X_ExecProcNode\<close>), so that the query may fail between any two rows.
\<close>

fun ExecutePlan :: "env \<Rightarrow> DR_transientrel \<Rightarrow> HeapTuple list \<Rightarrow> unit act" where
  "ExecutePlan E d [] = ret ()"
| "ExecutePlan E d (slot # slots) =
     bnd (extern E (X_ExecProcNode slot) (\<lambda>w. Inr ((), w))) (\<lambda>_.
     bnd (transientrel_receive E slot d) (\<lambda>_.
     ExecutePlan E d slots))"

definition ExecutorRun :: "env \<Rightarrow> QueryDesc \<Rightarrow> DR_transientrel act" where
  "ExecutorRun E qd =
     bnd (transientrel_startup E (dest qd)) (\<lambda>d.
     bnd (ExecutePlan E d (plan_rows E (plannedstmt qd) (snapshot qd))) (\<lambda>_.
     transientrel_shutdown E d))"

text \<open>
  \<^verbatim>\<open>refresh_matview_datafill\<close> (lines 211-282). \<^verbatim>\<open>linitial\<close> and \<^verbatim>\<open>lsecond\<close> read
  through the list cell, which is NULL when the list is too short;
  \<^verbatim>\<open>Assert(strcmp(a, b))\<close> holds when the strings differ.
\<close>

definition refresh_matview_datafill ::
  "env \<Rightarrow> DR_transientrel \<Rightarrow> Query \<Rightarrow> string \<Rightarrow> unit act" where
  "refresh_matview_datafill E d query queryString =
     bnd (QueryRewrite E query) (\<lambda>rewritten.
     bnd (if length rewritten \<noteq> 1
          then raise (Elog ''unexpected rewrite result for REFRESH MATERIALIZED VIEW'')
          else ret ()) (\<lambda>_.
     case rewritten of
       [] \<Rightarrow> raise (Segfault ''linitial(rewritten)'')
     | query # _ \<Rightarrow>
     bnd (CHECK_FOR_INTERRUPTS E) (\<lambda>_.
     case rtable query of
       [] \<Rightarrow> raise (Segfault ''linitial(rtable)'')
     | initial_rte # rest \<Rightarrow>
     bnd (Assert E (aliasname initial_rte \<noteq> ''new'') ''strcmp(aliasname, new)'') (\<lambda>_.
     case rest of
       [] \<Rightarrow> raise (Segfault ''lsecond(rtable)'')
     | second_rte # others \<Rightarrow>
     bnd (Assert E (aliasname second_rte \<noteq> ''old'') ''strcmp(aliasname, old)'') (\<lambda>_.
     bnd (ret (query\<lparr>rtable := initial_rte\<lparr>isResultRel := True\<rparr>
                               # second_rte\<lparr>isResultRel := True\<rparr> # others\<rparr>)) (\<lambda>query.
     bnd (pg_plan_query E query) (\<lambda>plan.
     bnd GetActiveSnapshot (\<lambda>s.
     bnd (PushCopiedSnapshot E s) (\<lambda>_.
     bnd (UpdateActiveSnapshotCommandId E) (\<lambda>_.
     bnd GetActiveSnapshot (\<lambda>s.
     bnd (CreateQueryDesc E plan queryString s d) (\<lambda>queryDesc.
     bnd (ExecutorStart E queryDesc) (\<lambda>_.
     bnd (ExecutorRun E queryDesc) (\<lambda>_.
     bnd (ExecutorFinish E queryDesc) (\<lambda>_.
     bnd (ExecutorEnd E queryDesc) (\<lambda>_.
     bnd (FreeQueryDesc E queryDesc) (\<lambda>_.
     PopActiveSnapshot E)))))))))))))))))"

text \<open>
  \<^verbatim>\<open>ExecRefreshMatView\<close> (lines 109-206). The lock mode, the flags of the swap and its
  transaction-id arguments (\<^verbatim>\<open>RecentXmin\<close>, \<^verbatim>\<open>ReadNextMultiXactId()\<close>) have no
  counterpart here; a list node handed to \<^verbatim>\<open>Assert(IsA(dataQuery, Query))\<close> is a
  \<open>Query\<close> by its type.
\<close>

definition ExecRefreshMatView :: "env \<Rightarrow> RefreshMatViewStmt \<Rightarrow> string \<Rightarrow> unit act" where
  "ExecRefreshMatView E stmt queryString =
     bnd (RangeVarGetRelidExtended E (relation stmt)) (\<lambda>matviewOid.
     bnd (heap_open E matviewOid) (\<lambda>matviewRel.
     bnd (deref matviewRel) (\<lambda>rd.
     bnd (if relkind rd \<noteq> RELKIND_MATVIEW
          then raise (Ereport ERRCODE_FEATURE_NOT_SUPPORTED ''is not a materialized view'')
          else ret ()) (\<lambda>_.
     bnd (Assert E (\<not> rd_issystem rd) ''!IsSystemRelation(matviewRel)'') (\<lambda>_.
     bnd (Assert E (\<not> relhasoids rd) ''!relhasoids'') (\<lambda>_.
     bnd (if relhasrules rd = False \<or> length (rd_rules rd) < 1
          then raise (Elog ''materialized view is missing rewrite information'')
          else ret ()) (\<lambda>_.
     bnd (if length (rd_rules rd) > 1
          then raise (Elog ''materialized view has too many rules'')
          else ret ()) (\<lambda>_.
     case rd_rules rd of
       [] \<Rightarrow> raise (Segfault ''rules[0]'')
     | rule # _ \<Rightarrow>
     bnd (if event rule \<noteq> CMD_SELECT \<or> \<not> isInstead rule
          then raise (Elog ''the rule for materialized view is not a SELECT INSTEAD OF rule'')
          else ret ()) (\<lambda>_.
     bnd (if length (actions rule) \<noteq> 1
          then raise (Elog ''the rule for materialized view is not a single action'')
          else ret ()) (\<lambda>_.
     case actions rule of
       [] \<Rightarrow> raise (Segfault ''linitial(actions)'')
     | dataQuery # _ \<Rightarrow>
     bnd (CheckTableNotInUse E matviewRel) (\<lambda>_.
     bnd (ret (reltablespace rd)) (\<lambda>tableSpace.
     bnd (heap_close E matviewRel) (\<lambda>_.
     bnd (make_new_heap E matviewOid tableSpace) (\<lambda>OIDNewHeap.
     bnd (ret (CreateTransientRelDestReceiver OIDNewHeap)) (\<lambda>d.
     bnd (if \<not> skipData stmt then refresh_matview_datafill E d dataQuery queryString
          else ret ()) (\<lambda>_.
     bnd (finish_heap_swap E matviewOid OIDNewHeap) (\<lambda>_.
     RelationCacheInvalidateEntry E matviewOid)))))))))))))))))"

section \<open>Traces, effects and the pieces of the two long functions\<close>

subsection \<open>The calls each function makes, in order\<close>

text \<open>
  The backend calls of one complete \<^verbatim>\<open>SetMatViewToPopulated\<close> on the relation \<open>r\<close>
  whose entry is \<open>rd\<close>.
\<close>

definition SetMatViewToPopulated_calls :: "RelationData \<Rightarrow> Oid \<Rightarrow> xcall list" where
  "SetMatViewToPopulated_calls rd r =
     (if RelationNeedsWAL rd then [X_log_newpage (rd_node rd) 0] else [])
     @ [X_RelationOpenSmgr r, X_smgrextend (rd_node rd) 0, X_smgrimmedsync (rd_node rd),
        X_RelationCacheInvalidateEntry r]"

text \<open>
  The insertion options that \<^verbatim>\<open>transientrel_startup\<close> computes.
\<close>

definition startup_options :: "env \<Rightarrow> 32 word" where
  "startup_options E =
     (if \<not> XLogIsNeeded E
      then (HEAP_INSERT_SKIP_FSM OR HEAP_INSERT_FROZEN) OR HEAP_INSERT_SKIP_WAL
      else HEAP_INSERT_SKIP_FSM OR HEAP_INSERT_FROZEN)"

definition transientrel_startup_calls :: "RelationData \<Rightarrow> Oid \<Rightarrow> xcall list" where
  "transientrel_startup_calls rd t =
     [X_heap_open t, X_GetBulkInsertState] @ SetMatViewToPopulated_calls rd t"

definition ExecutePlan_calls ::
  "Oid \<Rightarrow> CommandId \<Rightarrow> 32 word \<Rightarrow> HeapTuple list \<Rightarrow> xcall list" where
  "ExecutePlan_calls t cid opts rows =
     concat (map (\<lambda>tup. [X_ExecProcNode tup, X_heap_insert t tup cid opts]) rows)"

definition transientrel_shutdown_calls :: "32 word \<Rightarrow> Oid \<Rightarrow> xcall list" where
  "transientrel_shutdown_calls opts t =
     [X_FreeBulkInsertState]
     @ (if opts AND HEAP_INSERT_SKIP_WAL \<noteq> 0 then [X_heap_sync t] else [])
     @ [X_heap_close t]"

definition ExecutorRun_calls ::
  "env \<Rightarrow> RelationData \<Rightarrow> Oid \<Rightarrow> CommandId \<Rightarrow> HeapTuple list \<Rightarrow> xcall list" where
  "ExecutorRun_calls E rd t cid rows =
     transientrel_startup_calls rd t
     @ ExecutePlan_calls t cid (startup_options E) rows
     @ transientrel_shutdown_calls (startup_options E) t"

text \<open>
  The query that is planned: the single rewritten query with its first two range-table
  entries flagged.
\<close>

definition flag_result_rels :: "Query \<Rightarrow> Query" where
  "flag_result_rels q =
     (case rtable q of
        a # b # rest \<Rightarrow> q\<lparr>rtable := a\<lparr>isResultRel := True\<rparr> # b\<lparr>isResultRel := True\<rparr> # rest\<rparr>
      | _ \<Rightarrow> q)"

definition datafill_rows :: "env \<Rightarrow> Query \<Rightarrow> SnapshotData \<Rightarrow> CommandId \<Rightarrow> HeapTuple list" where
  "datafill_rows E q1 s cid = plan_rows E (planner E (flag_result_rels q1)) (s\<lparr>curcid := cid\<rparr>)"

definition datafill_prologue_calls :: "env \<Rightarrow> Query \<Rightarrow> world \<Rightarrow> xcall list" where
  "datafill_prologue_calls E q w =
     X_QueryRewrite q #
     (case rewriter E q of
        [q1] \<Rightarrow>
          X_CHECK_FOR_INTERRUPTS #
          (case rtable q1 of
             a # b # rest \<Rightarrow>
               X_pg_plan_query (flag_result_rels q1) #
               (case ActiveSnapshot w of
                  [] \<Rightarrow> []
                | s # ss \<Rightarrow>
                    [X_PushCopiedSnapshot, X_UpdateActiveSnapshotCommandId,
                     X_CreateQueryDesc (planner E (flag_result_rels q1)),
                     X_ExecutorStart (planner E (flag_result_rels q1))])
           | _ \<Rightarrow> [])
      | _ \<Rightarrow> [])"

definition datafill_epilogue_calls :: "PlannedStmt \<Rightarrow> xcall list" where
  "datafill_epilogue_calls p =
     [X_ExecutorFinish p, X_ExecutorEnd p, X_FreeQueryDesc p, X_PopActiveSnapshot]"

text \<open>
  The calls of \<^verbatim>\<open>refresh_matview_datafill\<close>, as far as it gets when no callee raises:
  it stops after the rewrite when the result is not one query, and a range table or a
  snapshot stack that is too short stops it where it is read.
\<close>

definition datafill_calls ::
  "env \<Rightarrow> Query \<Rightarrow> world \<Rightarrow> RelationData \<Rightarrow> Oid \<Rightarrow> xcall list" where
  "datafill_calls E q w rd t =
     X_QueryRewrite q #
     (case rewriter E q of
        [q1] \<Rightarrow>
          X_CHECK_FOR_INTERRUPTS #
          (case rtable q1 of
             a # b # rest \<Rightarrow>
               X_pg_plan_query (flag_result_rels q1) #
               (case ActiveSnapshot w of
                  [] \<Rightarrow> []
                | s # ss \<Rightarrow>
                    [X_PushCopiedSnapshot, X_UpdateActiveSnapshotCommandId,
                     X_CreateQueryDesc (planner E (flag_result_rels q1)),
                     X_ExecutorStart (planner E (flag_result_rels q1))]
                    @ ExecutorRun_calls E rd t (currentCommandId w)
                        (datafill_rows E q1 s (currentCommandId w))
                    @ [X_ExecutorFinish (planner E (flag_result_rels q1)),
                       X_ExecutorEnd (planner E (flag_result_rels q1)),
                       X_FreeQueryDesc (planner E (flag_result_rels q1)),
                       X_PopActiveSnapshot])
           | _ \<Rightarrow> [])
      | _ \<Rightarrow> [])"

definition refresh_prologue_calls :: "env \<Rightarrow> RefreshMatViewStmt \<Rightarrow> world \<Rightarrow> xcall list" where
  "refresh_prologue_calls E stmt w =
     X_RangeVarGetRelidExtended (relation stmt) #
     (case resolve E (relation stmt) of
        None \<Rightarrow> []
      | Some v \<Rightarrow>
          X_heap_open v #
          (case rels w v of
             None \<Rightarrow> []
           | Some rd \<Rightarrow>
               [X_CheckTableNotInUse v, X_heap_close v, X_make_new_heap v (reltablespace rd)]))"

definition refresh_fill_calls ::
  "env \<Rightarrow> RefreshMatViewStmt \<Rightarrow> Query \<Rightarrow> world \<Rightarrow> RelationData \<Rightarrow> Oid \<Rightarrow> xcall list" where
  "refresh_fill_calls E stmt q w rd t =
     (if skipData stmt then [] else datafill_calls E q w rd t)"

subsection \<open>What happens to the transient file\<close>

definition populate_file :: "SMgrFile \<Rightarrow> SMgrFile" where
  "populate_file f =
     f\<lparr>blocks := write_block (blocks f) 0
          \<lparr>pd_initialized = True, pd_checksummed = True, pd_items = []\<rparr>,
       synced := True\<rparr>"

definition insert_row :: "env \<Rightarrow> HeapTuple \<Rightarrow> SMgrFile \<Rightarrow> SMgrFile" where
  "insert_row E tup f =
     f\<lparr>blocks := add_tuple E (blocks f) tup, synced := False,
       smgr_targblock := Some (length (add_tuple E (blocks f) tup) - 1)\<rparr>"

definition close_file :: "env \<Rightarrow> SMgrFile \<Rightarrow> SMgrFile" where
  "close_file E f = (if XLogIsNeeded E then f else f\<lparr>synced := True\<rparr>)"

text \<open>
  The file that is swapped in: the untouched new heap for a no-data refresh, otherwise
  the populated heap with the rows of the defining query.
\<close>

definition refresh_file :: "env \<Rightarrow> RefreshMatViewStmt \<Rightarrow> Query \<Rightarrow> world \<Rightarrow> SMgrFile" where
  "refresh_file E stmt q w =
     (if skipData stmt then empty_file
      else (case rewriter E q of
              [q1] \<Rightarrow> (case ActiveSnapshot w of
                          s # ss \<Rightarrow> close_file E (fold (insert_row E)
                                     (datafill_rows E q1 s (currentCommandId w))
                                     (populate_file empty_file))
                        | [] \<Rightarrow> empty_file)
            | _ \<Rightarrow> empty_file))"

subsection \<open>Kinds of calls\<close>


fun is_heap_insert :: "xcall \<Rightarrow> bool" where
  "is_heap_insert (X_heap_insert r tup cid opts) = True"
| "is_heap_insert c = False"

text \<open>The calls made before the first occurrence of the call \<open>c\<close>.\<close>

fun calls_before :: "xcall \<Rightarrow> xcall list \<Rightarrow> xcall list" where
  "calls_before c [] = []"
| "calls_before c (x # xs) = (if x = c then [] else x # calls_before c xs)"

definition snapshot_call :: "xcall \<Rightarrow> bool" where
  "snapshot_call c =
     (c = X_PushCopiedSnapshot \<or> c = X_UpdateActiveSnapshotCommandId \<or> c = X_PopActiveSnapshot)"

definition snapshot_or_interrupt :: "xcall \<Rightarrow> bool" where
  "snapshot_or_interrupt c = (c = X_CHECK_FOR_INTERRUPTS \<or> snapshot_call c)"

subsection \<open>The two long functions in pieces\<close>

text \<open>
  \<^verbatim>\<open>refresh_matview_datafill\<close> is what it does before running the executor, the
  executor run, and what it does after; \<^verbatim>\<open>ExecRefreshMatView\<close> is what it does up to
  the creation of the transient heap, the optional fill, the swap and the invalidation.
  The pieces are proved equal to the functions above (\<open>datafill_split\<close>,
  \<open>ExecRefreshMatView_split\<close>) and only serve the proofs.
\<close>

definition datafill_prologue ::
  "env \<Rightarrow> DR_transientrel \<Rightarrow> Query \<Rightarrow> string \<Rightarrow> QueryDesc act" where
  "datafill_prologue E d query queryString =
     bnd (QueryRewrite E query) (\<lambda>rewritten.
     bnd (if length rewritten \<noteq> 1
          then raise (Elog ''unexpected rewrite result for REFRESH MATERIALIZED VIEW'')
          else ret ()) (\<lambda>_.
     case rewritten of
       [] \<Rightarrow> raise (Segfault ''linitial(rewritten)'')
     | query # _ \<Rightarrow>
     bnd (CHECK_FOR_INTERRUPTS E) (\<lambda>_.
     case rtable query of
       [] \<Rightarrow> raise (Segfault ''linitial(rtable)'')
     | initial_rte # rest \<Rightarrow>
     bnd (Assert E (aliasname initial_rte \<noteq> ''new'') ''strcmp(aliasname, new)'') (\<lambda>_.
     case rest of
       [] \<Rightarrow> raise (Segfault ''lsecond(rtable)'')
     | second_rte # others \<Rightarrow>
     bnd (Assert E (aliasname second_rte \<noteq> ''old'') ''strcmp(aliasname, old)'') (\<lambda>_.
     bnd (ret (query\<lparr>rtable := initial_rte\<lparr>isResultRel := True\<rparr>
                               # second_rte\<lparr>isResultRel := True\<rparr> # others\<rparr>)) (\<lambda>query.
     bnd (pg_plan_query E query) (\<lambda>plan.
     bnd GetActiveSnapshot (\<lambda>s.
     bnd (PushCopiedSnapshot E s) (\<lambda>_.
     bnd (UpdateActiveSnapshotCommandId E) (\<lambda>_.
     bnd GetActiveSnapshot (\<lambda>s.
     bnd (CreateQueryDesc E plan queryString s d) (\<lambda>queryDesc.
     bnd (ExecutorStart E queryDesc) (\<lambda>_.
     ret queryDesc)))))))))))))"

definition datafill_epilogue :: "env \<Rightarrow> QueryDesc \<Rightarrow> unit act" where
  "datafill_epilogue E queryDesc =
     bnd (ExecutorFinish E queryDesc) (\<lambda>_.
     bnd (ExecutorEnd E queryDesc) (\<lambda>_.
     bnd (FreeQueryDesc E queryDesc) (\<lambda>_.
     PopActiveSnapshot E)))"

definition refresh_prologue :: "env \<Rightarrow> RefreshMatViewStmt \<Rightarrow> (Oid \<times> Query \<times> Oid) act" where
  "refresh_prologue E stmt =
     bnd (RangeVarGetRelidExtended E (relation stmt)) (\<lambda>matviewOid.
     bnd (heap_open E matviewOid) (\<lambda>matviewRel.
     bnd (deref matviewRel) (\<lambda>rd.
     bnd (if relkind rd \<noteq> RELKIND_MATVIEW
          then raise (Ereport ERRCODE_FEATURE_NOT_SUPPORTED ''is not a materialized view'')
          else ret ()) (\<lambda>_.
     bnd (Assert E (\<not> rd_issystem rd) ''!IsSystemRelation(matviewRel)'') (\<lambda>_.
     bnd (Assert E (\<not> relhasoids rd) ''!relhasoids'') (\<lambda>_.
     bnd (if relhasrules rd = False \<or> length (rd_rules rd) < 1
          then raise (Elog ''materialized view is missing rewrite information'')
          else ret ()) (\<lambda>_.
     bnd (if length (rd_rules rd) > 1
          then raise (Elog ''materialized view has too many rules'')
          else ret ()) (\<lambda>_.
     case rd_rules rd of
       [] \<Rightarrow> raise (Segfault ''rules[0]'')
     | rule # _ \<Rightarrow>
     bnd (if event rule \<noteq> CMD_SELECT \<or> \<not> isInstead rule
          then raise (Elog ''the rule for materialized view is not a SELECT INSTEAD OF rule'')
          else ret ()) (\<lambda>_.
     bnd (if length (actions rule) \<noteq> 1
          then raise (Elog ''the rule for materialized view is not a single action'')
          else ret ()) (\<lambda>_.
     case actions rule of
       [] \<Rightarrow> raise (Segfault ''linitial(actions)'')
     | dataQuery # _ \<Rightarrow>
     bnd (CheckTableNotInUse E matviewRel) (\<lambda>_.
     bnd (ret (reltablespace rd)) (\<lambda>tableSpace.
     bnd (heap_close E matviewRel) (\<lambda>_.
     bnd (make_new_heap E matviewOid tableSpace) (\<lambda>OIDNewHeap.
     ret (matviewOid, dataQuery, OIDNewHeap)))))))))))))))"

text \<open>
  What one run of the row loop does to the world, for the induction on the rows.
\<close>

definition ExecutePlan_post ::
  "env \<Rightarrow> DR_transientrel \<Rightarrow> HeapTuple list \<Rightarrow> world \<Rightarrow> error + unit \<Rightarrow> world \<Rightarrow> bool" where
  "ExecutePlan_post E d rows w r w' =
     (\<forall>t rd f. transientrel d = Some t \<and> rels w t = Some rd \<and> smgr w (rd_node rd) = Some f \<longrightarrow>
        (\<exists>evs g. w' = w\<lparr>trace := trace w @ evs, smgr := (smgr w)(rd_node rd := g)\<rparr>
           \<and> prefix evs (ExecutePlan_calls t (output_cid d) (hi_options d) rows)
           \<and> (r = Inr () \<longrightarrow> evs = ExecutePlan_calls t (output_cid d) (hi_options d) rows
                   \<and> g = Some (fold (insert_row E) rows f))))"

subsection \<open>A concrete database\<close>

text \<open>
  The view of the spec's scenario: \<^verbatim>\<open>SELECT id, total FROM orders WHERE total > 100\<close>,
  unpopulated, with OID 1 and storage 1; no callee raises, WAL archiving is off, the
  rewriter returns its input, the plan yields the rows (3, 150) and (7, 200), and a page
  has room for one row.
  \<open>wT\<close> is the same database after the transient heap 2 has been created.
\<close>

definition q0 :: Query where
  "q0 = \<lparr>commandType = CMD_SELECT,
         rtable = [\<lparr>aliasname = ''old'', isResultRel = False\<rparr>,
                   \<lparr>aliasname = ''new'', isResultRel = False\<rparr>,
                   \<lparr>aliasname = ''orders'', isResultRel = False\<rparr>],
         querySource = ''SELECT id, total FROM orders WHERE total > 100''\<rparr>"

definition view0 :: RelationData where
  "view0 = \<lparr>relkind = RELKIND_MATVIEW, relhasoids = False, relhasrules = True,
            rd_rules = [\<lparr>event = CMD_SELECT, isInstead = True, actions = [q0]\<rparr>],
            reltablespace = 0, rd_node = 1, relpersistence_permanent = True,
            rd_ispopulated = False, rd_issystem = False, open_scans = 0\<rparr>"

definition E0 :: env where
  "E0 = \<lparr>fails = (\<lambda>tr c. False),
         resolve = (\<lambda>n. if n = ''v'' then Some 1 else None),
         XLogIsNeeded = False,
         rewriter = (\<lambda>q. [q]),
         planner = (\<lambda>q. 7),
         plan_rows = (\<lambda>p s. [[3, 150], [7, 200]]),
         assert_enabled = True,
         tuple_fits = (\<lambda>p t. pd_items p = [])\<rparr>"

definition w0 :: world where
  "w0 = \<lparr>rels = [1 \<mapsto> view0],
         smgr = [1 \<mapsto> empty_file],
         nextOid = 2,
         ActiveSnapshot = [\<lparr>snap_xmin = 0, curcid = 0\<rparr>],
         currentCommandId = 1,
         trace = []\<rparr>"

definition wT :: world where
  "wT = \<lparr>rels = [1 \<mapsto> view0, 2 \<mapsto> new_heap_entry view0 0 2],
         smgr = [1 \<mapsto> empty_file, 2 \<mapsto> empty_file],
         nextOid = 3,
         ActiveSnapshot = [\<lparr>snap_xmin = 0, curcid = 0\<rparr>],
         currentCommandId = 1,
         trace = []\<rparr>"

definition refresh_data :: RefreshMatViewStmt where
  "refresh_data = \<lparr>skipData = False, relation = ''v''\<rparr>"

definition refresh_nodata :: RefreshMatViewStmt where
  "refresh_nodata = \<lparr>skipData = True, relation = ''v''\<rparr>"

text \<open>The tuple receiver for the transient heap 2, fresh and after its startup.\<close>

definition d0 :: DR_transientrel where
  "d0 = CreateTransientRelDestReceiver 2"

definition d0_open :: DR_transientrel where
  "d0_open = d0\<lparr>transientrel := Some 2, output_cid := 1, hi_options := 7, bistate := True\<rparr>"

text \<open>The database with the view's rule missing, and with a scan of the view still open.\<close>

definition w0_norules :: world where
  "w0_norules = w0\<lparr>rels := [1 \<mapsto> view0\<lparr>rd_rules := []\<rparr>]\<rparr>"

definition w0_inuse :: world where
  "w0_inuse = w0\<lparr>rels := [1 \<mapsto> view0\<lparr>open_scans := 1\<rparr>]\<rparr>"



text \<open>
  The query descriptor for the plan of the concrete view, with the receiver \<open>d0\<close>.
\<close>

definition qd0 :: QueryDesc where
  "qd0 = \<lparr>plannedstmt = 7, sourceText = [], snapshot = \<lparr>snap_xmin = 0, curcid = 1\<rparr>,
          dest = d0\<rparr>"

section \<open>Lemmas\<close>

subsection \<open>Sequencing\<close>

lemma bnd_ret [simp]: "bnd (ret x) f = f x"
  by (rule ext) (simp add: bnd_def ret_def)

lemma bnd_raise [simp]: "bnd (raise e) f = raise e"
  by (rule ext) (simp add: bnd_def raise_def)

lemma bndE:
  assumes "bnd m f w = (r, w')"
  obtains (err) e where "m w = (Inl e, w')" "r = Inl e"
        | (ok) x w1 where "m w = (Inr x, w1)" "f x w1 = (r, w')"
  using assms by (auto simp: bnd_def split: prod.splits sum.splits)

lemmas prim_defs = ret_def raise_def extern_def Assert_def deref_def

subsection \<open>The transition and the tuple receiver\<close>

lemma SetMat_ok:
  assumes "SetMatViewToPopulated E t w = (Inr u, w')"
    and "rels w t = Some rd" and "smgr w (rd_node rd) = Some f"
  shows "w' = w\<lparr>trace := trace w @ SetMatViewToPopulated_calls rd t,
                 smgr := (smgr w)(rd_node rd \<mapsto> f\<lparr>blocks := write_block (blocks f) 0
                    \<lparr>pd_initialized = True, pd_checksummed = True, pd_items = []\<rparr>, synced := True\<rparr>),
                 rels := (rels w)(t \<mapsto> rd\<lparr>rd_ispopulated := True\<rparr>)\<rparr>"
  using assms
  unfolding SetMatViewToPopulated_def log_newpage_def RelationOpenSmgr_def smgrextend_def
    smgrimmedsync_def RelationCacheInvalidateEntry_def SetMatViewToPopulated_calls_def
  by (auto simp: bnd_def prim_defs PageInit_def PageSetChecksumInplace_def
        relcache_ispopulated_def write_block_def
      split: if_splits option.splits sum.splits prod.splits)

lemma skip_wal_bit:
  "startup_options E AND HEAP_INSERT_SKIP_WAL \<noteq> 0 \<longleftrightarrow> \<not> XLogIsNeeded E"
  by (simp add: startup_options_def HEAP_INSERT_SKIP_WAL_def HEAP_INSERT_SKIP_FSM_def
      HEAP_INSERT_FROZEN_def)

lemma ExecutePlan_summary:
  "ExecutePlan E d rows w = (r, w') \<Longrightarrow> ExecutePlan_post E d rows w r w'"
proof (induction rows arbitrary: w)
  case Nil
  then show ?case
    by (auto simp: ExecutePlan_post_def ret_def ExecutePlan_calls_def map_upd_triv
        intro!: exI[where x="[]"])
next
  case (Cons row rows)
  show ?case
    unfolding ExecutePlan_post_def
  proof (intro allI impI, elim conjE)
    fix t rd f
    assume d: "transientrel d = Some t" and rd: "rels w t = Some rd"
      and f: "smgr w (rd_node rd) = Some f"
    let ?C = "ExecutePlan_calls t (output_cid d) (hi_options d)"
    let ?goal = "\<exists>evs g. w' = w\<lparr>trace := trace w @ evs, smgr := (smgr w)(rd_node rd := g)\<rparr>
           \<and> prefix evs (?C (row # rows))
           \<and> (r = Inr () \<longrightarrow> evs = ?C (row # rows) \<and> g = Some (fold (insert_row E) (row # rows) f))"
    from Cons.prems have run:
      "bnd (extern E (X_ExecProcNode row) (\<lambda>w. Inr ((), w))) (\<lambda>_.
       bnd (transientrel_receive E row d) (\<lambda>_. ExecutePlan E d rows)) w = (r, w')"
      by simp
    from run show ?goal
    proof (cases rule: bndE)
      case (err e)
      then have "w' = w" and "r \<noteq> Inr ()"
        by (auto simp: extern_def split: if_splits)
      with f show ?thesis
        by (intro exI[where x="[]"] exI[where x="Some f"]) (auto simp: map_upd_triv)
    next
      case (ok x w1)
      then have w1: "w1 = w\<lparr>trace := trace w @ [X_ExecProcNode row]\<rparr>"
        by (auto simp: extern_def split: if_splits)
      from ok(2) show ?thesis
      proof (cases rule: bndE)
        case (err e)
        then have "w' = w1" and "r \<noteq> Inr ()"
          using d rd f
          by (auto simp: transientrel_receive_def heap_insert_def extern_def w1 Let_def
              split: if_splits)
        with f w1 show ?thesis
          by (intro exI[where x="[X_ExecProcNode row]"] exI[where x="Some f"])
            (auto simp: ExecutePlan_calls_def map_upd_triv)
      next
        case (ok y w2)
        then have w2: "w2 = w\<lparr>trace := trace w @ [X_ExecProcNode row,
             X_heap_insert t row (output_cid d) (hi_options d)],
             smgr := (smgr w)(rd_node rd \<mapsto> insert_row E row f)\<rparr>"
          using d rd f
          by (auto simp: transientrel_receive_def heap_insert_def extern_def w1 Let_def
              insert_row_def split: if_splits)
        from Cons.IH[OF ok(2)] d rd f obtain evs g where
          "w' = w2\<lparr>trace := trace w2 @ evs, smgr := (smgr w2)(rd_node rd := g)\<rparr>"
          "prefix evs (?C rows)"
          "r = Inr () \<longrightarrow> evs = ?C rows \<and> g = Some (fold (insert_row E) rows (insert_row E row f))"
          unfolding ExecutePlan_post_def by (auto simp: w2)
        then show ?thesis
          by (intro exI[where x="[X_ExecProcNode row,
             X_heap_insert t row (output_cid d) (hi_options d)] @ evs"] exI[where x=g])
            (auto simp: w2 ExecutePlan_calls_def)
      qed
    qed
  qed
qed

lemmas sink_defs = transientrel_startup_def heap_open_def GetCurrentCommandId_def
  GetBulkInsertState_def SetMatViewToPopulated_def log_newpage_def RelationOpenSmgr_def
  smgrextend_def smgrimmedsync_def RelationCacheInvalidateEntry_def
  RelationGetTargetBlock_def transientrel_shutdown_def FreeBulkInsertState_def
  heap_sync_def heap_close_def

lemmas calls_defs = transientrel_startup_calls_def SetMatViewToPopulated_calls_def
  transientrel_shutdown_calls_def ExecutorRun_calls_def

lemma startup_ok:
  assumes "transientrel_startup E d w = (Inr d', w')"
    and "rels w (transientoid d) = Some rd" and "smgr w (rd_node rd) = Some f"
  shows "d' = d\<lparr>transientrel := Some (transientoid d), output_cid := currentCommandId w,
                hi_options := startup_options E, bistate := True\<rparr>
       \<and> w' = w\<lparr>trace := trace w @ transientrel_startup_calls rd (transientoid d),
                 smgr := (smgr w)(rd_node rd \<mapsto> populate_file f),
                 rels := (rels w)(transientoid d \<mapsto> rd\<lparr>rd_ispopulated := True\<rparr>)\<rparr>"
  using assms unfolding sink_defs calls_defs
  by (auto simp: bnd_def prim_defs PageInit_def PageSetChecksumInplace_def
        relcache_ispopulated_def write_block_def startup_options_def populate_file_def
      split: if_splits option.splits sum.splits prod.splits)

lemma startup_err:
  assumes "transientrel_startup E d w = (Inl e, w')"
    and "rels w (transientoid d) = Some rd" and "smgr w (rd_node rd) = Some f"
  shows "w' = w\<lparr>trace := trace w',
               smgr := (smgr w)(rd_node rd := smgr w' (rd_node rd)),
               rels := (rels w)(transientoid d := rels w' (transientoid d))\<rparr>
        \<and> (rels w' (transientoid d) = Some rd
            \<or> rels w' (transientoid d) = Some (rd\<lparr>rd_ispopulated := True\<rparr>))
        \<and> (\<exists>evs. trace w' = trace w @ evs
              \<and> prefix evs (transientrel_startup_calls rd (transientoid d)))"
  using assms unfolding sink_defs calls_defs
  by (auto simp: bnd_def prim_defs PageInit_def PageSetChecksumInplace_def
        relcache_ispopulated_def write_block_def map_upd_triv
      split: if_splits option.splits sum.splits prod.splits)

lemma shutdown_any:
  assumes "transientrel_shutdown E d w = (r, w')"
    and "transientrel d = Some t"
    and "rels w t = Some rd" and "smgr w (rd_node rd) = Some f"
  shows "w' = w\<lparr>trace := trace w',
               smgr := (smgr w)(rd_node rd := smgr w' (rd_node rd))\<rparr>
        \<and> (\<exists>evs. trace w' = trace w @ evs
              \<and> prefix evs (transientrel_shutdown_calls (hi_options d) t)
              \<and> (\<forall>d'. r = Inr d' \<longrightarrow> evs = transientrel_shutdown_calls (hi_options d) t))
        \<and> (\<forall>d'. r = Inr d' \<longrightarrow> smgr w' (rd_node rd) =
               Some (if hi_options d AND HEAP_INSERT_SKIP_WAL \<noteq> 0 then f\<lparr>synced := True\<rparr> else f))"
  using assms unfolding sink_defs calls_defs
  by (auto simp: bnd_def prim_defs map_upd_triv
      split: if_splits option.splits sum.splits prod.splits)

lemma ExecutorRun_summary:
  assumes run: "ExecutorRun E qd w = (r, w')"
    and rd: "rels w (transientoid (dest qd)) = Some rd"
    and f: "smgr w (rd_node rd) = Some f"
  shows "w' = w\<lparr>trace := trace w',
               smgr := (smgr w)(rd_node rd := smgr w' (rd_node rd)),
               rels := (rels w)(transientoid (dest qd) := rels w' (transientoid (dest qd)))\<rparr>
        \<and> (rels w' (transientoid (dest qd)) = Some rd
            \<or> rels w' (transientoid (dest qd)) = Some (rd\<lparr>rd_ispopulated := True\<rparr>))
        \<and> (\<exists>evs. trace w' = trace w @ evs
              \<and> prefix evs (ExecutorRun_calls E rd (transientoid (dest qd)) (currentCommandId w)
                    (plan_rows E (plannedstmt qd) (snapshot qd)))
              \<and> (\<forall>d'. r = Inr d' \<longrightarrow>
                    evs = ExecutorRun_calls E rd (transientoid (dest qd)) (currentCommandId w)
                            (plan_rows E (plannedstmt qd) (snapshot qd))))
        \<and> (\<forall>d'. r = Inr d' \<longrightarrow>
              rels w' (transientoid (dest qd)) = Some (rd\<lparr>rd_ispopulated := True\<rparr>)
              \<and> smgr w' (rd_node rd) =
                  Some (close_file E (fold (insert_row E)
                         (plan_rows E (plannedstmt qd) (snapshot qd)) (populate_file f))))"
proof -
    let ?t = "transientoid (dest qd)"
    let ?rows = "plan_rows E (plannedstmt qd) (snapshot qd)"
    from run have run':
      "bnd (transientrel_startup E (dest qd)) (\<lambda>d.
         bnd (ExecutePlan E d ?rows) (\<lambda>_. transientrel_shutdown E d)) w = (r, w')"
      by (simp add: ExecutorRun_def)
    from run' show ?thesis
    proof (cases rule: bndE)
      case (err e)
      from startup_err[OF err(1) rd f] err(2) show ?thesis
        by (auto simp: ExecutorRun_calls_def)
    next
      case (ok d1 w1)
      from startup_ok[OF ok(1) rd f] have
        d1: "d1 = (dest qd)\<lparr>transientrel := Some ?t, output_cid := currentCommandId w,
                hi_options := startup_options E, bistate := True\<rparr>" and
        w1: "w1 = w\<lparr>trace := trace w @ transientrel_startup_calls rd ?t,
                 smgr := (smgr w)(rd_node rd \<mapsto> populate_file f),
                 rels := (rels w)(?t \<mapsto> rd\<lparr>rd_ispopulated := True\<rparr>)\<rparr>"
        by simp_all
      let ?C = "ExecutePlan_calls ?t (currentCommandId w) (startup_options E) ?rows"
      from ok(2) show ?thesis
      proof (cases rule: bndE)
        case (err e)
        from ExecutePlan_summary[OF err(1)] obtain evs g where
          w': "w' = w1\<lparr>trace := trace w1 @ evs, smgr := (smgr w1)(rd_node rd := g)\<rparr>" and
          evs: "prefix evs ?C"
          unfolding ExecutePlan_post_def by (auto simp: d1 w1)
        show ?thesis using rd f err(2) evs
          by (auto simp: ExecutorRun_calls_def w' w1)
      next
        case (ok u w2)
        from ExecutePlan_summary[OF ok(1)] have
          w2: "w2 = w1\<lparr>trace := trace w1 @ ?C,
                 smgr := (smgr w1)(rd_node rd \<mapsto> fold (insert_row E) ?rows (populate_file f))\<rparr>"
          unfolding ExecutePlan_post_def by (auto simp: d1 w1)
        have td: "transientrel d1 = Some ?t" by (simp add: d1)
        have rel2: "rels w2 ?t = Some (rd\<lparr>rd_ispopulated := True\<rparr>)"
          by (simp add: w2 w1)
        have file2: "smgr w2 (rd_node (rd\<lparr>rd_ispopulated := True\<rparr>))
             = Some (fold (insert_row E) ?rows (populate_file f))"
          by (simp add: w2 w1)
        have sh:
           "w' = w2\<lparr>trace := trace w',
               smgr := (smgr w2)(rd_node rd := smgr w' (rd_node rd))\<rparr>
        \<and> (\<exists>evs. trace w' = trace w2 @ evs
              \<and> prefix evs (transientrel_shutdown_calls (hi_options d1) ?t)
              \<and> (\<forall>d'. r = Inr d' \<longrightarrow> evs = transientrel_shutdown_calls (hi_options d1) ?t))
        \<and> (\<forall>d'. r = Inr d' \<longrightarrow> smgr w' (rd_node rd) =
               Some (if hi_options d1 AND HEAP_INSERT_SKIP_WAL \<noteq> 0
                     then (fold (insert_row E) ?rows (populate_file f))\<lparr>synced := True\<rparr>
                     else fold (insert_row E) ?rows (populate_file f)))"
          using shutdown_any[OF ok(2) td rel2 file2] by simp
        then obtain evs where
          fr: "w' = w2\<lparr>trace := trace w',
               smgr := (smgr w2)(rd_node rd := smgr w' (rd_node rd))\<rparr>" and
          tr: "trace w' = trace w2 @ evs" and
          pre: "prefix evs (transientrel_shutdown_calls (startup_options E) ?t)" and
          fin: "\<forall>d'. r = Inr d' \<longrightarrow> evs = transientrel_shutdown_calls (startup_options E) ?t" and
          fl: "\<forall>d'. r = Inr d' \<longrightarrow> smgr w' (rd_node rd) =
               Some (close_file E (fold (insert_row E) ?rows (populate_file f)))"
          by (auto simp: d1 skip_wal_bit close_file_def)
        have rels': "rels w' ?t = Some (rd\<lparr>rd_ispopulated := True\<rparr>)"
          by (subst fr) (simp add: w2 w1)
        have frame: "w' = w\<lparr>trace := trace w',
               smgr := (smgr w)(rd_node rd := smgr w' (rd_node rd)),
               rels := (rels w)(?t := rels w' ?t)\<rparr>"
          unfolding rels' by (subst fr) (simp add: w2 w1)
        have tr': "trace w' = trace w @ (transientrel_startup_calls rd ?t @ ?C @ evs)"
          by (simp add: tr w2 w1)
        have pre': "prefix (transientrel_startup_calls rd ?t @ ?C @ evs)
            (ExecutorRun_calls E rd ?t (currentCommandId w) ?rows)"
          using pre by (simp add: ExecutorRun_calls_def)
        have fin': "\<forall>d'. r = Inr d' \<longrightarrow> transientrel_startup_calls rd ?t @ ?C @ evs
            = ExecutorRun_calls E rd ?t (currentCommandId w) ?rows"
          using fin by (simp add: ExecutorRun_calls_def)
        show ?thesis
          using frame rels' tr' pre' fin' fl by blast
      qed
    qed
qed

lemma frameI:
  assumes "w' = w\<lparr>trace := trace w', smgr := (smgr w)(n := smgr w' n),
                  rels := (rels w)(t := rels w' t)\<rparr>"
    and "trace w' = trace w @ evs"
    and "rels w' t = Some rd \<or> rels w' t = Some (rd\<lparr>rd_ispopulated := True\<rparr>)"
  shows "\<exists>g b. w' = w\<lparr>trace := trace w @ evs, smgr := (smgr w)(n := g),
                       rels := (rels w)(t \<mapsto> rd\<lparr>rd_ispopulated := b\<rparr>)\<rparr>
               \<and> g = smgr w' n
               \<and> (rels w' t = Some (rd\<lparr>rd_ispopulated := True\<rparr>) \<longrightarrow> b)"
proof -
  from assms(3) obtain b where b: "rels w' t = Some (rd\<lparr>rd_ispopulated := b\<rparr>)"
    and b': "rels w' t = Some (rd\<lparr>rd_ispopulated := True\<rparr>) \<longrightarrow> b"
  proof
    assume a: "rels w' t = Some rd"
    show thesis
    proof (cases "rd_ispopulated rd")
      case True
      with a have "rels w' t = Some (rd\<lparr>rd_ispopulated := True\<rparr>)" by simp
      then show ?thesis using that[of True] by simp
    next
      case False
      with a have 1: "rels w' t = Some (rd\<lparr>rd_ispopulated := False\<rparr>)" by simp
      have "rd \<noteq> rd\<lparr>rd_ispopulated := True\<rparr>"
        using False by (metis RelationData.select_convs(8) RelationData.surjective
            RelationData.update_convs(8))
      with a have "rels w' t \<noteq> Some (rd\<lparr>rd_ispopulated := True\<rparr>)" by simp
      with 1 show ?thesis using that[of False] by simp
    qed
  next
    assume "rels w' t = Some (rd\<lparr>rd_ispopulated := True\<rparr>)"
    then show thesis using that[of True] by simp
  qed
  have "w' = w\<lparr>trace := trace w @ evs, smgr := (smgr w)(n := smgr w' n),
                       rels := (rels w)(t \<mapsto> rd\<lparr>rd_ispopulated := b\<rparr>)\<rparr>"
    using assms(1) unfolding b assms(2) .
  with b' show ?thesis by blast
qed

lemma ExecutorRun_frame:
  assumes run: "ExecutorRun E qd w = (r, w')"
    and rd: "rels w (transientoid (dest qd)) = Some rd"
    and f: "smgr w (rd_node rd) = Some f"
  shows "\<exists>evs g b. w' = w\<lparr>trace := trace w @ evs,
               smgr := (smgr w)(rd_node rd := g),
               rels := (rels w)(transientoid (dest qd) \<mapsto> rd\<lparr>rd_ispopulated := b\<rparr>)\<rparr>
          \<and> prefix evs (ExecutorRun_calls E rd (transientoid (dest qd)) (currentCommandId w)
                    (plan_rows E (plannedstmt qd) (snapshot qd)))
          \<and> (\<forall>d'. r = Inr d' \<longrightarrow>
                 evs = ExecutorRun_calls E rd (transientoid (dest qd)) (currentCommandId w)
                            (plan_rows E (plannedstmt qd) (snapshot qd))
                 \<and> b \<and> g = Some (close_file E (fold (insert_row E)
                         (plan_rows E (plannedstmt qd) (snapshot qd)) (populate_file f))))"
proof -
  let ?t = "transientoid (dest qd)"
  let ?C = "ExecutorRun_calls E rd ?t (currentCommandId w)
                    (plan_rows E (plannedstmt qd) (snapshot qd))"
  from ExecutorRun_summary[OF run rd f] obtain evs where
    fr: "w' = w\<lparr>trace := trace w',
               smgr := (smgr w)(rd_node rd := smgr w' (rd_node rd)),
               rels := (rels w)(?t := rels w' ?t)\<rparr>" and
    rl: "rels w' ?t = Some rd \<or> rels w' ?t = Some (rd\<lparr>rd_ispopulated := True\<rparr>)" and
    tr: "trace w' = trace w @ evs" and
    pre: "prefix evs ?C" and
    fin: "\<forall>d'. r = Inr d' \<longrightarrow> evs = ?C" and
    ok: "\<forall>d'. r = Inr d' \<longrightarrow> rels w' ?t = Some (rd\<lparr>rd_ispopulated := True\<rparr>)
              \<and> smgr w' (rd_node rd) =
                  Some (close_file E (fold (insert_row E)
                         (plan_rows E (plannedstmt qd) (snapshot qd)) (populate_file f)))"
    by (elim conjE exE)
  from frameI[OF fr tr rl] obtain g b where
    eq: "w' = w\<lparr>trace := trace w @ evs, smgr := (smgr w)(rd_node rd := g),
                       rels := (rels w)(?t \<mapsto> rd\<lparr>rd_ispopulated := b\<rparr>)\<rparr>" and
    g: "g = smgr w' (rd_node rd)" and
    b: "rels w' ?t = Some (rd\<lparr>rd_ispopulated := True\<rparr>) \<longrightarrow> b"
    by blast
  show ?thesis
    apply (rule exI[where x=evs])
    apply (rule exI[where x=g])
    apply (rule exI[where x=b])
    apply (intro conjI)
      apply (rule eq)
     apply (rule pre)
    using fin ok b g apply blast
    done
qed

subsection \<open>The data fill\<close>

lemma bnd_assoc: "bnd (bnd m f) g = bnd m (\<lambda>x. bnd (f x) g)"
  by (rule ext) (simp add: bnd_def split: prod.splits sum.splits)

lemma bnd_case_list:
  "bnd (case xs of [] \<Rightarrow> a | y # ys \<Rightarrow> b y ys) g
     = (case xs of [] \<Rightarrow> bnd a g | y # ys \<Rightarrow> bnd (b y ys) g)"
  by (simp split: list.splits)

lemma datafill_split:
  "refresh_matview_datafill E d q qs =
     bnd (datafill_prologue E d q qs) (\<lambda>qd.
     bnd (ExecutorRun E qd) (\<lambda>_. datafill_epilogue E qd))"
  unfolding refresh_matview_datafill_def datafill_prologue_def datafill_epilogue_def
  by (simp add: bnd_assoc bnd_case_list cong: list.case_cong if_cong)

lemmas datafill_defs = QueryRewrite_def CHECK_FOR_INTERRUPTS_def
  pg_plan_query_def GetActiveSnapshot_def PushCopiedSnapshot_def
  UpdateActiveSnapshotCommandId_def CreateQueryDesc_def ExecutorStart_def ExecutorFinish_def
  ExecutorEnd_def FreeQueryDesc_def PopActiveSnapshot_def

lemma datafill_prologue_any:
  assumes "datafill_prologue E d q qs w = (r, w')"
  shows "w' = w\<lparr>trace := trace w', ActiveSnapshot := ActiveSnapshot w'\<rparr>
     \<and> (\<exists>evs. trace w' = trace w @ evs \<and> prefix evs (datafill_prologue_calls E q w)
            \<and> (\<forall>qd. r = Inr qd \<longrightarrow> evs = datafill_prologue_calls E q w))
     \<and> (\<forall>qd. r = Inr qd \<longrightarrow>
           (\<exists>q1 a b rest s ss. rewriter E q = [q1] \<and> rtable q1 = a # b # rest
              \<and> ActiveSnapshot w = s # ss
              \<and> ActiveSnapshot w' = s\<lparr>curcid := currentCommandId w\<rparr> # s # ss
              \<and> qd = \<lparr>plannedstmt = planner E (flag_result_rels q1), sourceText = qs,
                      snapshot = s\<lparr>curcid := currentCommandId w\<rparr>, dest = d\<rparr>))"
  using assms unfolding datafill_prologue_def datafill_defs datafill_prologue_calls_def
  by (auto simp: bnd_def prim_defs flag_result_rels_def
      split: if_splits sum.splits prod.splits list.splits)

lemma datafill_epilogue_any:
  assumes "datafill_epilogue E qd w = (r, w')"
  shows "w' = w\<lparr>trace := trace w', ActiveSnapshot := ActiveSnapshot w'\<rparr>
     \<and> (\<exists>evs. trace w' = trace w @ evs \<and> prefix evs (datafill_epilogue_calls (plannedstmt qd))
            \<and> (r = Inr () \<longrightarrow> evs = datafill_epilogue_calls (plannedstmt qd)))
     \<and> (r = Inr () \<longrightarrow> ActiveSnapshot w' = tl (ActiveSnapshot w))"
  using assms unfolding datafill_epilogue_def datafill_defs datafill_epilogue_calls_def
  by (auto simp: bnd_def prim_defs
      split: if_splits sum.splits prod.splits list.splits)

lemma datafill_prologue_prefix: "prefix (datafill_prologue_calls E q w) (datafill_calls E q w rd t)"
  by (auto simp: datafill_prologue_calls_def datafill_calls_def split: list.splits)

lemma datafill_calls_full:
  "rewriter E q = [q1] \<Longrightarrow> rtable q1 = a # b # rest \<Longrightarrow> ActiveSnapshot w = s # ss \<Longrightarrow>
   datafill_calls E q w rd t =
     datafill_prologue_calls E q w
     @ ExecutorRun_calls E rd t (currentCommandId w) (datafill_rows E q1 s (currentCommandId w))
     @ datafill_epilogue_calls (planner E (flag_result_rels q1))"
  by (simp add: datafill_prologue_calls_def datafill_calls_def datafill_epilogue_calls_def)

lemma datafill_summary:
  assumes run: "refresh_matview_datafill E d q qs w = (r, w')"
    and rd: "rels w (transientoid d) = Some rd"
    and f: "smgr w (rd_node rd) = Some f"
  shows "\<exists>evs g b a. w' = w\<lparr>trace := trace w @ evs,
               smgr := (smgr w)(rd_node rd := g),
               rels := (rels w)(transientoid d \<mapsto> rd\<lparr>rd_ispopulated := b\<rparr>),
               ActiveSnapshot := a\<rparr>
          \<and> prefix evs (datafill_calls E q w rd (transientoid d))
          \<and> (r = Inr () \<longrightarrow>
                 evs = datafill_calls E q w rd (transientoid d)
                 \<and> b \<and> a = ActiveSnapshot w
                 \<and> (\<exists>q1 x y rest s ss. rewriter E q = [q1] \<and> rtable q1 = x # y # rest
                       \<and> ActiveSnapshot w = s # ss
                       \<and> g = Some (close_file E (fold (insert_row E)
                            (datafill_rows E q1 s (currentCommandId w)) (populate_file f)))))"
proof -
  let ?t = "transientoid d"
  let ?n = "rd_node rd"
  from run have run':
    "bnd (datafill_prologue E d q qs) (\<lambda>qd.
       bnd (ExecutorRun E qd) (\<lambda>_. datafill_epilogue E qd)) w = (r, w')"
    by (simp add: datafill_split)
  from run' show ?thesis
  proof (cases rule: bndE)
    case (err e)
    from datafill_prologue_any[OF err(1)] obtain evs where
      fr: "w' = w\<lparr>trace := trace w', ActiveSnapshot := ActiveSnapshot w'\<rparr>" and
      tr: "trace w' = trace w @ evs" and
      pre: "prefix evs (datafill_prologue_calls E q w)"
      by (elim conjE exE)
    have eq: "w' = w\<lparr>trace := trace w @ evs,
               smgr := (smgr w)(?n := Some f),
               rels := (rels w)(?t \<mapsto> rd\<lparr>rd_ispopulated := rd_ispopulated rd\<rparr>),
               ActiveSnapshot := ActiveSnapshot w'\<rparr>"
      by (subst fr) (simp add: tr rd f map_upd_triv)
    have pre': "prefix evs (datafill_calls E q w rd ?t)"
      using pre datafill_prologue_prefix by (rule prefix_order.trans)
    show ?thesis
      apply (rule exI[where x=evs])
      apply (rule exI[where x="Some f"])
      apply (rule exI[where x="rd_ispopulated rd"])
      apply (rule exI[where x="ActiveSnapshot w'"])
      using eq pre' err(2) apply simp
      done
  next
    case (ok qd w1)
    from datafill_prologue_any[OF ok(1)] obtain evs1 q1 a b rest s ss where
      fr1: "w1 = w\<lparr>trace := trace w1, ActiveSnapshot := ActiveSnapshot w1\<rparr>" and
      tr1: "trace w1 = trace w @ evs1" and
      fin1: "evs1 = datafill_prologue_calls E q w" and
      q1: "rewriter E q = [q1]" and rt: "rtable q1 = a # b # rest" and
      as: "ActiveSnapshot w = s # ss" and
      as1: "ActiveSnapshot w1 = s\<lparr>curcid := currentCommandId w\<rparr> # s # ss" and
      qd: "qd = \<lparr>plannedstmt = planner E (flag_result_rels q1), sourceText = qs,
                      snapshot = s\<lparr>curcid := currentCommandId w\<rparr>, dest = d\<rparr>"
      by blast
    have w1: "w1 = w\<lparr>trace := trace w @ datafill_prologue_calls E q w,
                    ActiveSnapshot := s\<lparr>curcid := currentCommandId w\<rparr> # s # ss\<rparr>"
      using fr1 unfolding tr1 as1 fin1 .
    let ?rows = "datafill_rows E q1 s (currentCommandId w)"
    let ?ERC = "ExecutorRun_calls E rd ?t (currentCommandId w) ?rows"
    let ?p = "planner E (flag_result_rels q1)"
    have full: "datafill_calls E q w rd ?t = datafill_prologue_calls E q w @ ?ERC @ datafill_epilogue_calls ?p"
      using q1 rt as by (rule datafill_calls_full)
    have rd1: "rels w1 (transientoid (dest qd)) = Some rd" by (simp add: w1 qd rd)
    have f1: "smgr w1 (rd_node rd) = Some f" by (simp add: w1 f)
    have rows: "plan_rows E (plannedstmt qd) (snapshot qd) = ?rows"
      by (simp add: qd datafill_rows_def)
    have tq: "transientoid (dest qd) = ?t" by (simp add: qd)
    have cid1: "currentCommandId w1 = currentCommandId w" by (simp add: w1)
    from ok(2) show ?thesis
    proof (cases rule: bndE)
      case (err e)
      from ExecutorRun_frame[OF err(1) rd1 f1] obtain evs g b where
        w': "w' = w1\<lparr>trace := trace w1 @ evs, smgr := (smgr w1)(?n := g),
               rels := (rels w1)(?t \<mapsto> rd\<lparr>rd_ispopulated := b\<rparr>)\<rparr>" and
        pre: "prefix evs ?ERC"
        unfolding rows cid1 tq by blast
      have eq: "w' = w\<lparr>trace := trace w @ (datafill_prologue_calls E q w @ evs),
               smgr := (smgr w)(?n := g),
               rels := (rels w)(?t \<mapsto> rd\<lparr>rd_ispopulated := b\<rparr>),
               ActiveSnapshot := s\<lparr>curcid := currentCommandId w\<rparr> # s # ss\<rparr>"
        by (simp add: w' w1 qd)
      have pre': "prefix (datafill_prologue_calls E q w @ evs) (datafill_calls E q w rd ?t)"
        using pre by (simp add: full)
      show ?thesis
        apply (rule exI[where x="datafill_prologue_calls E q w @ evs"])
        apply (rule exI[where x=g])
        apply (rule exI[where x=b])
        apply (rule exI[where x="s\<lparr>curcid := currentCommandId w\<rparr> # s # ss"])
        using eq pre' err(2) apply simp
        done
    next
      case (ok d' w2)
      from ExecutorRun_frame[OF ok(1) rd1 f1] have
        w2: "w2 = w1\<lparr>trace := trace w1 @ ?ERC,
               smgr := (smgr w1)(?n \<mapsto> close_file E (fold (insert_row E) ?rows (populate_file f))),
               rels := (rels w1)(?t \<mapsto> rd\<lparr>rd_ispopulated := True\<rparr>)\<rparr>"
        unfolding rows cid1 tq by auto
      from datafill_epilogue_any[OF ok(2)] obtain evs where
        fr3: "w' = w2\<lparr>trace := trace w', ActiveSnapshot := ActiveSnapshot w'\<rparr>" and
        tr3: "trace w' = trace w2 @ evs" and
        pre3: "prefix evs (datafill_epilogue_calls ?p)" and
        fin3: "r = Inr () \<longrightarrow> evs = datafill_epilogue_calls ?p" and
        as3: "r = Inr () \<longrightarrow> ActiveSnapshot w' = tl (ActiveSnapshot w2)"
        by (auto simp: qd)
      have eq: "w' = w\<lparr>trace := trace w @ (datafill_prologue_calls E q w @ ?ERC @ evs),
               smgr := (smgr w)(?n := Some (close_file E (fold (insert_row E) ?rows (populate_file f)))),
               rels := (rels w)(?t \<mapsto> rd\<lparr>rd_ispopulated := True\<rparr>),
               ActiveSnapshot := ActiveSnapshot w'\<rparr>"
        by (subst fr3) (simp add: tr3 w2 w1 qd)
      have pre': "prefix (datafill_prologue_calls E q w @ ?ERC @ evs) (datafill_calls E q w rd ?t)"
        using pre3 by (simp add: full)
      have as': "r = Inr () \<longrightarrow> ActiveSnapshot w' = ActiveSnapshot w"
        using as3 by (simp add: w2 w1 as)
      show ?thesis
        apply (rule exI[where x="datafill_prologue_calls E q w @ ?ERC @ evs"])
        apply (rule exI[where x="Some (close_file E (fold (insert_row E) ?rows (populate_file f)))"])
        apply (rule exI[where x=True])
        apply (rule exI[where x="ActiveSnapshot w'"])
        using eq pre' fin3 as' q1 rt as full apply simp
        done
    qed
  qed
qed

subsection \<open>The refresh\<close>

lemma ExecRefreshMatView_split:
  "ExecRefreshMatView E stmt qs =
     bnd (refresh_prologue E stmt) (\<lambda>(v, q, t).
     bnd (if \<not> skipData stmt
          then refresh_matview_datafill E (CreateTransientRelDestReceiver t) q qs
          else ret ()) (\<lambda>_.
     bnd (finish_heap_swap E v t) (\<lambda>_.
     RelationCacheInvalidateEntry E v)))"
  unfolding ExecRefreshMatView_def refresh_prologue_def
  by (simp add: bnd_assoc bnd_case_list cong: list.case_cong if_cong)

lemmas refresh_defs = RangeVarGetRelidExtended_def heap_open_def CheckTableNotInUse_def
  heap_close_def make_new_heap_def

lemma refresh_prologue_any:
  assumes "refresh_prologue E stmt w = (r, w')"
  shows "(\<exists>evs. trace w' = trace w @ evs \<and> prefix evs (refresh_prologue_calls E stmt w)
            \<and> (\<forall>x. r = Inr x \<longrightarrow> evs = refresh_prologue_calls E stmt w))
     \<and> (\<forall>e. r = Inl e \<longrightarrow> w' = w\<lparr>trace := trace w'\<rparr>)
     \<and> (\<forall>v q t. r = Inr (v, q, t) \<longrightarrow>
           resolve E (relation stmt) = Some v \<and> t = nextOid w
           \<and> (\<exists>rd rule. rels w v = Some rd \<and> relkind rd = RELKIND_MATVIEW \<and> relhasrules rd
                 \<and> rd_rules rd = [rule] \<and> event rule = CMD_SELECT \<and> isInstead rule
                 \<and> actions rule = [q] \<and> open_scans rd = 0
                 \<and> w' = w\<lparr>trace := trace w',
                          rels := (rels w)(t \<mapsto> new_heap_entry rd (reltablespace rd) t),
                          smgr := (smgr w)(t \<mapsto> empty_file),
                          nextOid := Suc t\<rparr>))"
  using assms unfolding refresh_prologue_def refresh_defs refresh_prologue_calls_def
  by (auto simp: bnd_def prim_defs Let_def new_heap_entry_def empty_file_def
      split: if_splits option.splits sum.splits prod.splits list.splits)

lemma fill_summary:
  assumes run: "(if \<not> skipData stmt
          then refresh_matview_datafill E (CreateTransientRelDestReceiver t) q qs
          else ret ()) w = (r, w')"
    and rd: "rels w t = Some rd"
    and f: "smgr w (rd_node rd) = Some empty_file"
    and unpop: "\<not> rd_ispopulated rd"
  shows "\<exists>evs g b a. w' = w\<lparr>trace := trace w @ evs,
               smgr := (smgr w)(rd_node rd := g),
               rels := (rels w)(t \<mapsto> rd\<lparr>rd_ispopulated := b\<rparr>),
               ActiveSnapshot := a\<rparr>
          \<and> prefix evs (refresh_fill_calls E stmt q w rd t)
          \<and> (r = Inr () \<longrightarrow>
                 evs = refresh_fill_calls E stmt q w rd t
                 \<and> b = (\<not> skipData stmt) \<and> a = ActiveSnapshot w
                 \<and> g = Some (refresh_file E stmt q w)
                 \<and> (skipData stmt \<or> (\<exists>q1 s ss. rewriter E q = [q1] \<and> ActiveSnapshot w = s # ss)))"
proof (cases "skipData stmt")
  case True
  with run have "w' = w" and "r = Inr ()" by (simp_all add: ret_def)
  then show ?thesis
    apply (intro exI[where x="[]::xcall list"])
    apply (rule exI[where x="Some empty_file"])
    apply (rule exI[where x="rd_ispopulated rd"])
    apply (rule exI[where x="ActiveSnapshot w"])
    using True rd f unpop
    apply (simp add: refresh_fill_calls_def refresh_file_def map_upd_triv)
    done
next
  case False
  with run have run': "refresh_matview_datafill E (CreateTransientRelDestReceiver t) q qs w = (r, w')"
    by simp
  have rd': "rels w (transientoid (CreateTransientRelDestReceiver t)) = Some rd"
    using rd by (simp add: CreateTransientRelDestReceiver_def)
  from datafill_summary[OF run' rd' f] obtain evs g b a where
    eq: "w' = w\<lparr>trace := trace w @ evs,
               smgr := (smgr w)(rd_node rd := g),
               rels := (rels w)(t \<mapsto> rd\<lparr>rd_ispopulated := b\<rparr>),
               ActiveSnapshot := a\<rparr>" and
    pre: "prefix evs (datafill_calls E q w rd t)" and
    fin: "r = Inr () \<longrightarrow>
                 evs = datafill_calls E q w rd t
                 \<and> b \<and> a = ActiveSnapshot w
                 \<and> (\<exists>q1 x y rest s ss. rewriter E q = [q1] \<and> rtable q1 = x # y # rest
                       \<and> ActiveSnapshot w = s # ss
                       \<and> g = Some (close_file E (fold (insert_row E)
                            (datafill_rows E q1 s (currentCommandId w)) (populate_file empty_file))))"
    by (auto simp: CreateTransientRelDestReceiver_def)
  show ?thesis
    apply (rule exI[where x=evs])
    apply (rule exI[where x=g])
    apply (rule exI[where x=b])
    apply (rule exI[where x=a])
    using eq pre fin False
    apply (auto simp: refresh_fill_calls_def refresh_file_def)
    done
qed

lemma refresh_fill_calls_cong:
  "ActiveSnapshot w1 = ActiveSnapshot w \<Longrightarrow> currentCommandId w1 = currentCommandId w \<Longrightarrow>
   refresh_fill_calls E stmt q w1 rd t = refresh_fill_calls E stmt q w rd t"
  by (simp add: refresh_fill_calls_def datafill_calls_def split: list.splits)

lemma refresh_file_cong:
  "ActiveSnapshot w1 = ActiveSnapshot w \<Longrightarrow> currentCommandId w1 = currentCommandId w \<Longrightarrow>
   refresh_file E stmt q w1 = refresh_file E stmt q w"
  by (simp add: refresh_file_def split: list.splits)

lemma ExecRefreshMatView_cases:
  assumes run: "ExecRefreshMatView E stmt qs w = (r, w')"
    and v: "resolve E (relation stmt) = Some v" and rd: "rels w v = Some rd"
    and fresh: "v < nextOid w" "rd_node rd < nextOid w"
  obtains
    (early) e evs where "r = Inl e" "w' = w\<lparr>trace := trace w @ evs\<rparr>"
      "prefix evs (refresh_prologue_calls E stmt w)"
  | (unswapped) e rule q evs g b a where "r = Inl e"
      "rd_rules rd = [rule]" "actions rule = [q]"
      "w' = w\<lparr>trace := trace w @ refresh_prologue_calls E stmt w @ evs,
              rels := (rels w)(nextOid w \<mapsto>
                 (new_heap_entry rd (reltablespace rd) (nextOid w))\<lparr>rd_ispopulated := b\<rparr>),
              smgr := (smgr w)(nextOid w := g),
              nextOid := Suc (nextOid w),
              ActiveSnapshot := a\<rparr>"
      "prefix evs (refresh_fill_calls E stmt q w
                     (new_heap_entry rd (reltablespace rd) (nextOid w)) (nextOid w))"
  | (swapped) rule q where
      "r = Inr () \<or> r = Inl (Raised (X_RelationCacheInvalidateEntry v))"
      "relkind rd = RELKIND_MATVIEW" "rd_rules rd = [rule]" "actions rule = [q]"
      "skipData stmt \<or> (\<exists>q1 s ss. rewriter E q = [q1] \<and> ActiveSnapshot w = s # ss)"
      "w' = w\<lparr>trace := trace w @ refresh_prologue_calls E stmt w
                   @ refresh_fill_calls E stmt q w
                       (new_heap_entry rd (reltablespace rd) (nextOid w)) (nextOid w)
                   @ X_finish_heap_swap v (nextOid w)
                   # (if r = Inr () then [X_RelationCacheInvalidateEntry v] else []),
              rels := ((rels w)(v \<mapsto> rd\<lparr>rd_node := nextOid w,
                          rd_ispopulated := (if r = Inr ()
                             then blocks (refresh_file E stmt q w) \<noteq> []
                             else rd_ispopulated rd)\<rparr>))(nextOid w := None),
              smgr := ((smgr w)(nextOid w \<mapsto> refresh_file E stmt q w))(rd_node rd := None),
              nextOid := Suc (nextOid w)\<rparr>"
proof -
  let ?t = "nextOid w"
  let ?rdt = "new_heap_entry rd (reltablespace rd) ?t"
  let ?PC = "refresh_prologue_calls E stmt w"
  have ne: "v \<noteq> ?t" "rd_node rd \<noteq> ?t" using fresh by simp_all
  from run have run':
    "bnd (refresh_prologue E stmt) (\<lambda>(v, q, t).
     bnd (if \<not> skipData stmt
          then refresh_matview_datafill E (CreateTransientRelDestReceiver t) q qs
          else ret ()) (\<lambda>_.
     bnd (finish_heap_swap E v t) (\<lambda>_.
     RelationCacheInvalidateEntry E v))) w = (r, w')"
    by (simp add: ExecRefreshMatView_split)
  from run' show thesis
  proof (cases rule: bndE)
    case (err e)
    from refresh_prologue_any[OF err(1)] err(2) obtain evs where
      tr: "trace w' = trace w @ evs" and pre: "prefix evs ?PC" and
      fr: "w' = w\<lparr>trace := trace w'\<rparr>"
      by blast
    have eq: "w' = w\<lparr>trace := trace w @ evs\<rparr>" using fr unfolding tr .
    show thesis by (rule early[OF err(2) eq pre])
  next
    case (ok x w1)
    obtain v' q t where x: "x = (v', q, t)" by (cases x)
    from refresh_prologue_any[OF ok(1)] x v rd obtain rule where
      tr1: "trace w1 = trace w @ ?PC" and
      v': "v' = v" and t: "t = ?t" and
      kind: "relkind rd = RELKIND_MATVIEW" and
      rules: "rd_rules rd = [rule]" and acts: "actions rule = [q]" and
      fr1: "w1 = w\<lparr>trace := trace w1,
                          rels := (rels w)(?t \<mapsto> ?rdt),
                          smgr := (smgr w)(?t \<mapsto> empty_file),
                          nextOid := Suc ?t\<rparr>"
      by auto
    have w1: "w1 = w\<lparr>trace := trace w @ ?PC,
                          rels := (rels w)(?t \<mapsto> ?rdt),
                          smgr := (smgr w)(?t \<mapsto> empty_file),
                          nextOid := Suc ?t\<rparr>"
      using fr1 unfolding tr1 .
    have rdt1: "rels w1 ?t = Some ?rdt" by (simp add: w1)
    have ft1: "smgr w1 (rd_node ?rdt) = Some empty_file"
      by (simp add: w1 new_heap_entry_def)
    have unpop: "\<not> rd_ispopulated ?rdt"
      by (simp add: new_heap_entry_def kind relcache_ispopulated_def empty_file_def)
    have node: "rd_node ?rdt = ?t" by (simp add: new_heap_entry_def)
    have fc: "refresh_fill_calls E stmt q w1 ?rdt ?t = refresh_fill_calls E stmt q w ?rdt ?t"
      by (rule refresh_fill_calls_cong) (simp_all add: w1)
    have rf: "refresh_file E stmt q w1 = refresh_file E stmt q w"
      by (rule refresh_file_cong) (simp_all add: w1)
    from ok(2) have rest:
      "bnd (if \<not> skipData stmt
          then refresh_matview_datafill E (CreateTransientRelDestReceiver ?t) q qs
          else ret ()) (\<lambda>_.
       bnd (finish_heap_swap E v ?t) (\<lambda>_.
       RelationCacheInvalidateEntry E v)) w1 = (r, w')"
      by (simp add: x v' t)
    from rest show thesis
    proof (cases rule: bndE)
      case (err e)
      from fill_summary[OF err(1) rdt1 ft1 unpop] obtain evs g b a where
        eq: "w' = w1\<lparr>trace := trace w1 @ evs,
               smgr := (smgr w1)(?t := g),
               rels := (rels w1)(?t \<mapsto> ?rdt\<lparr>rd_ispopulated := b\<rparr>),
               ActiveSnapshot := a\<rparr>" and
        pre: "prefix evs (refresh_fill_calls E stmt q w ?rdt ?t)"
        unfolding node fc by blast
      have eq': "w' = w\<lparr>trace := trace w @ ?PC @ evs,
              rels := (rels w)(?t \<mapsto> ?rdt\<lparr>rd_ispopulated := b\<rparr>),
              smgr := (smgr w)(?t := g),
              nextOid := Suc ?t,
              ActiveSnapshot := a\<rparr>"
        by (simp add: eq w1)
      show thesis by (rule unswapped[OF err(2) rules acts eq' pre])
    next
      case (ok u w2)
      let ?FC = "refresh_fill_calls E stmt q w ?rdt ?t"
      let ?F = "refresh_file E stmt q w"
      from fill_summary[OF ok(1) rdt1 ft1 unpop] have
        w2: "w2 = w1\<lparr>trace := trace w1 @ ?FC,
               smgr := (smgr w1)(?t \<mapsto> ?F),
               rels := (rels w1)(?t \<mapsto> ?rdt\<lparr>rd_ispopulated := \<not> skipData stmt\<rparr>),
               ActiveSnapshot := ActiveSnapshot w1\<rparr>" and
        sk: "skipData stmt \<or> (\<exists>q1 s ss. rewriter E q = [q1] \<and> ActiveSnapshot w = s # ss)"
        unfolding node fc rf by (auto simp: w1)
      have rv2: "rels w2 v = Some rd" using ne rd by (simp add: w2 w1)
      have rt2: "rels w2 ?t = Some (?rdt\<lparr>rd_ispopulated := \<not> skipData stmt\<rparr>)"
        by (simp add: w2 w1)
      from ok(2) show thesis
      proof (cases rule: bndE)
        case (err e)
        then have "w' = w2"
          by (auto simp: finish_heap_swap_def extern_def rv2 rt2 split: if_splits)
        then have eq': "w' = w\<lparr>trace := trace w @ ?PC @ ?FC,
              rels := (rels w)(?t \<mapsto> ?rdt\<lparr>rd_ispopulated := \<not> skipData stmt\<rparr>),
              smgr := (smgr w)(?t := Some ?F),
              nextOid := Suc ?t,
              ActiveSnapshot := ActiveSnapshot w\<rparr>"
          by (simp add: w2 w1)
        show thesis by (rule unswapped[OF err(2) rules acts eq']) simp
      next
        case (ok u' w3)
        then have w3: "w3 = w2\<lparr>rels := ((rels w2)(v \<mapsto> rd\<lparr>rd_node := ?t\<rparr>))(?t := None),
                          smgr := (smgr w2)(rd_node rd := None),
                          trace := trace w2 @ [X_finish_heap_swap v ?t]\<rparr>"
          by (auto simp: finish_heap_swap_def extern_def rv2 rt2 new_heap_entry_def
              split: if_splits)
        have rv3: "rels w3 v = Some (rd\<lparr>rd_node := ?t\<rparr>)" using ne by (simp add: w3)
        have ft3: "smgr w3 ?t = Some ?F" using ne by (simp add: w3 w2 w1)
        from ok(2) have
          "(r = Inl (Raised (X_RelationCacheInvalidateEntry v)) \<and> w' = w3)
           \<or> (r = Inr () \<and> w' = w3\<lparr>rels := (rels w3)(v \<mapsto>
                     rd\<lparr>rd_node := ?t, rd_ispopulated := blocks ?F \<noteq> []\<rparr>),
                   trace := trace w3 @ [X_RelationCacheInvalidateEntry v]\<rparr>)"
          by (auto simp: RelationCacheInvalidateEntry_def extern_def rv3 ft3 kind
              relcache_ispopulated_def split: if_splits)
        then have r: "r = Inr () \<or> r = Inl (Raised (X_RelationCacheInvalidateEntry v))" and
          eq: "w' = w\<lparr>trace := trace w @ ?PC @ ?FC @ X_finish_heap_swap v ?t
                   # (if r = Inr () then [X_RelationCacheInvalidateEntry v] else []),
              rels := ((rels w)(v \<mapsto> rd\<lparr>rd_node := ?t,
                          rd_ispopulated := (if r = Inr ()
                             then blocks ?F \<noteq> [] else rd_ispopulated rd)\<rparr>))(?t := None),
              smgr := ((smgr w)(?t \<mapsto> ?F))(rd_node rd := None),
              nextOid := Suc ?t\<rparr>"
          using ne by (auto simp: w3 w2 w1 fun_upd_twist)
        show thesis by (rule swapped[OF r kind rules acts sk eq])
      qed
    qed
  qed
qed

lemmas model_defs = ExecRefreshMatView_def refresh_matview_datafill_def ExecutorRun_def
  transientrel_startup_def transientrel_receive_def transientrel_shutdown_def
  SetMatViewToPopulated_def CreateTransientRelDestReceiver_def
  RangeVarGetRelidExtended_def heap_open_def heap_close_def CheckTableNotInUse_def
  make_new_heap_def finish_heap_swap_def RelationCacheInvalidateEntry_def
  QueryRewrite_def CHECK_FOR_INTERRUPTS_def pg_plan_query_def GetActiveSnapshot_def
  PushCopiedSnapshot_def UpdateActiveSnapshotCommandId_def PopActiveSnapshot_def
  GetCurrentCommandId_def CreateQueryDesc_def ExecutorStart_def ExecutorFinish_def
  ExecutorEnd_def FreeQueryDesc_def log_newpage_def RelationOpenSmgr_def smgrextend_def
  smgrimmedsync_def GetBulkInsertState_def FreeBulkInsertState_def heap_insert_def
  heap_sync_def RelationGetTargetBlock_def
  bnd_def ret_def raise_def extern_def Assert_def deref_def
  PageInit_def PageSetChecksumInplace_def RelationNeedsWAL_def relcache_ispopulated_def
  write_block_def add_tuple_def zero_page_def new_heap_entry_def empty_file_def
  HEAP_INSERT_SKIP_WAL_def HEAP_INSERT_SKIP_FSM_def HEAP_INSERT_FROZEN_def


subsection \<open>Evaluation on the concrete database\<close>

lemmas example_defs = E0_def w0_def wT_def view0_def q0_def refresh_data_def refresh_nodata_def
  d0_def d0_open_def w0_norules_def w0_inuse_def

lemma write_block_empty: "write_block [] 0 p = [p]"
  by (simp add: write_block_def)

lemma startup_result:
  assumes "transientrel_startup E d w = (Inr d1, w1)"
  shows "d1 = d\<lparr>transientrel := Some (transientoid d), output_cid := currentCommandId w,
                hi_options := startup_options E, bistate := True\<rparr>"
  using assms unfolding sink_defs
  by (auto simp: bnd_def prim_defs startup_options_def
      split: if_splits option.splits sum.splits prod.splits)


section \<open>The claims\<close>

text \<open>
  C4. Populated-state transition, effect and order. On a relation whose storage has no
  block and whose cache entry says unpopulated, a \<^verbatim>\<open>SetMatViewToPopulated\<close> that returns
  has made exactly these backend calls, in this order: \<^verbatim>\<open>log_newpage\<close> for block 0 if
  the relation needs WAL (so the page is logged before it is written),
  \<^verbatim>\<open>RelationOpenSmgr\<close>, \<^verbatim>\<open>smgrextend\<close> of block 0, \<^verbatim>\<open>smgrimmedsync\<close>, and the
  invalidation of the relation's cache entry. Afterwards the storage consists of exactly
  one page, initialized, checksummed and without items, it is flushed, and the cache
  entry says populated.
\<close>

theorem SetMatViewToPopulated_effect:
  assumes run: "SetMatViewToPopulated E t w = (Inr (), w')"
    and rd: "rels w t = Some rd" and f: "smgr w (rd_node rd) = Some f"
    and unpop: "\<not> rd_ispopulated rd" "blocks f = []"
  shows "trace w' = trace w
            @ (if RelationNeedsWAL rd then [X_log_newpage (rd_node rd) 0] else [])
            @ [X_RelationOpenSmgr t, X_smgrextend (rd_node rd) 0,
               X_smgrimmedsync (rd_node rd), X_RelationCacheInvalidateEntry t]
     \<and> smgr w' (rd_node rd) =
          Some (f\<lparr>blocks := [\<lparr>pd_initialized = True, pd_checksummed = True, pd_items = []\<rparr>],
                  synced := True\<rparr>)
     \<and> rels w' t = Some (rd\<lparr>rd_ispopulated := True\<rparr>)"
  using SetMat_ok[OF run rd f] unpop
  by (simp add: SetMatViewToPopulated_calls_def write_block_empty)


text \<open>The transition on the fresh transient heap 2 of the concrete database.\<close>

theorem SetMatViewToPopulated_effect_witness:
  "fst (SetMatViewToPopulated E0 2 wT) = Inr ()
   \<and> rels wT 2 = Some (new_heap_entry view0 0 2) \<and> smgr wT 2 = Some empty_file
   \<and> \<not> rd_ispopulated (new_heap_entry view0 0 2) \<and> blocks empty_file = []
   \<and> trace (snd (SetMatViewToPopulated E0 2 wT)) =
        [X_log_newpage 2 0, X_RelationOpenSmgr 2, X_smgrextend 2 0, X_smgrimmedsync 2,
         X_RelationCacheInvalidateEntry 2]
   \<and> map_option blocks (smgr (snd (SetMatViewToPopulated E0 2 wT)) 2) =
        Some [\<lparr>pd_initialized = True, pd_checksummed = True, pd_items = []\<rparr>]
   \<and> map_option synced (smgr (snd (SetMatViewToPopulated E0 2 wT)) 2) = Some True
   \<and> map_option rd_ispopulated (rels (snd (SetMatViewToPopulated E0 2 wT)) 2) = Some True"
proof -
  have ok: "fst (SetMatViewToPopulated E0 2 wT) = Inr ()"
    by (simp add: model_defs example_defs)
  have run: "SetMatViewToPopulated E0 2 wT = (Inr (), snd (SetMatViewToPopulated E0 2 wT))"
    by (simp add: prod_eq_iff ok)
  have rd: "rels wT 2 = Some (new_heap_entry view0 0 2)" by (simp add: wT_def)
  have f: "smgr wT (rd_node (new_heap_entry view0 0 2)) = Some empty_file"
    by (simp add: wT_def new_heap_entry_def)
  have u1: "\<not> rd_ispopulated (new_heap_entry view0 0 2)"
    by (simp add: new_heap_entry_def view0_def relcache_ispopulated_def empty_file_def)
  have u2: "blocks empty_file = []" by (simp add: empty_file_def)
  from SetMatViewToPopulated_effect[OF run rd f u1 u2] ok rd u1 u2 show ?thesis
    by (simp add: wT_def new_heap_entry_def view0_def RelationNeedsWAL_def)
qed


text \<open>
  C2. Close-time durability compensation. For a receiver that \<^verbatim>\<open>transientrel_startup\<close>
  has opened, the skip-WAL bit is in its options exactly when \<^verbatim>\<open>XLogIsNeeded()\<close> was
  false; a \<^verbatim>\<open>transientrel_shutdown\<close> that returns has released the bulk-insert state
  first, has then called \<^verbatim>\<open>heap_sync\<close> on the transient relation exactly in that case
  (its file is then flushed), and has closed the relation; when WAL was not skipped it
  makes no flush call and leaves every file as it was.
\<close>

theorem transientrel_shutdown_flush_iff_wal_skipped:
  assumes startup: "transientrel_startup E d w = (Inr d1, w1)"
    and shutdown: "transientrel_shutdown E d1 w2 = (Inr d2, w')"
  shows "(hi_options d1 AND HEAP_INSERT_SKIP_WAL \<noteq> 0) = (\<not> XLogIsNeeded E)
     \<and> trace w' = trace w2 @ [X_FreeBulkInsertState]
          @ (if XLogIsNeeded E then [] else [X_heap_sync (transientoid d)])
          @ [X_heap_close (transientoid d)]
     \<and> (XLogIsNeeded E \<longrightarrow> smgr w' = smgr w2)
     \<and> (\<not> XLogIsNeeded E \<longrightarrow>
          (\<exists>rd f. rels w2 (transientoid d) = Some rd \<and> smgr w2 (rd_node rd) = Some f
             \<and> smgr w' (rd_node rd) = Some (f\<lparr>synced := True\<rparr>)))"
proof -
  note d1 = startup_result[OF startup]
  have bit: "(hi_options d1 AND HEAP_INSERT_SKIP_WAL \<noteq> 0) = (\<not> XLogIsNeeded E)"
    by (simp add: d1 skip_wal_bit)
  have tr: "transientrel d1 = Some (transientoid d)" by (simp add: d1)
  from shutdown bit tr show ?thesis
    unfolding transientrel_shutdown_def FreeBulkInsertState_def heap_sync_def heap_close_def
    by (auto simp: bnd_def prim_defs
        split: if_splits option.splits sum.splits prod.splits)
qed


text \<open>Open and close on the concrete database, where WAL archiving is off.\<close>

theorem transientrel_shutdown_flush_iff_wal_skipped_witness:
  "fst (transientrel_startup E0 d0 wT) = Inr d0_open
   \<and> fst (transientrel_shutdown E0 d0_open (snd (transientrel_startup E0 d0 wT)))
        = Inr (d0_open\<lparr>transientrel := None\<rparr>)
   \<and> \<not> XLogIsNeeded E0
   \<and> hi_options d0_open AND HEAP_INSERT_SKIP_WAL \<noteq> 0
   \<and> trace (snd (transientrel_shutdown E0 d0_open (snd (transientrel_startup E0 d0 wT))))
        = trace (snd (transientrel_startup E0 d0 wT))
          @ [X_FreeBulkInsertState, X_heap_sync 2, X_heap_close 2]"
proof -
  let ?w1 = "snd (transientrel_startup E0 d0 wT)"
  let ?w' = "snd (transientrel_shutdown E0 d0_open ?w1)"
  have ok1: "fst (transientrel_startup E0 d0 wT) = Inr d0_open"
    by (simp add: model_defs example_defs)
  have ok2: "fst (transientrel_shutdown E0 d0_open ?w1) = Inr (d0_open\<lparr>transientrel := None\<rparr>)"
    by (simp add: model_defs example_defs)
  have s1: "transientrel_startup E0 d0 wT = (Inr d0_open, ?w1)"
    by (simp add: prod_eq_iff ok1)
  have s2: "transientrel_shutdown E0 d0_open ?w1 = (Inr (d0_open\<lparr>transientrel := None\<rparr>), ?w')"
    by (simp add: prod_eq_iff ok2)
  have x: "\<not> XLogIsNeeded E0" by (simp add: E0_def)
  have t: "transientoid d0 = 2" by (simp add: d0_def CreateTransientRelDestReceiver_def)
  from transientrel_shutdown_flush_iff_wal_skipped[OF s1 s2] ok1 ok2 x t show ?thesis
    by simp
qed


text \<open>
  C10. A no-data refresh touches neither the snapshot stack nor the cancellation signal.
  Whatever happens in a refresh with \<open>skipData\<close> set (it may fail at any call), none of the
  calls it makes is \<^verbatim>\<open>CHECK_FOR_INTERRUPTS\<close>, \<^verbatim>\<open>PushCopiedSnapshot\<close>,
  \<^verbatim>\<open>UpdateActiveSnapshotCommandId\<close> or \<^verbatim>\<open>PopActiveSnapshot\<close>, and the active-snapshot
  stack is the same afterwards as before.
\<close>

theorem nodata_refresh_leaves_snapshots_and_interrupts_alone:
  assumes run: "ExecRefreshMatView E stmt qs w = (r, w')"
    and skip: "skipData stmt"
  shows "ActiveSnapshot w' = ActiveSnapshot w
     \<and> (\<exists>evs. trace w' = trace w @ evs \<and> filter snapshot_or_interrupt evs = [])"
  using assms
  unfolding ExecRefreshMatView_def RangeVarGetRelidExtended_def heap_open_def
    CheckTableNotInUse_def heap_close_def make_new_heap_def finish_heap_swap_def
    RelationCacheInvalidateEntry_def
  by (auto simp: bnd_def prim_defs snapshot_or_interrupt_def snapshot_call_def Let_def
      split: if_splits option.splits list.splits sum.splits prod.splits)

text \<open>
  The no-data refresh of the concrete view, which succeeds.
\<close>

theorem nodata_refresh_leaves_snapshots_and_interrupts_alone_witness:
  "skipData refresh_nodata
   \<and> fst (ExecRefreshMatView E0 refresh_nodata [] w0) = Inr ()
   \<and> ActiveSnapshot (snd (ExecRefreshMatView E0 refresh_nodata [] w0)) = ActiveSnapshot w0
   \<and> (\<exists>evs. trace (snd (ExecRefreshMatView E0 refresh_nodata [] w0)) = trace w0 @ evs
          \<and> filter snapshot_or_interrupt evs = [])"
proof -
  have ok: "fst (ExecRefreshMatView E0 refresh_nodata [] w0) = Inr ()"
    by (simp add: model_defs example_defs)
  have sk: "skipData refresh_nodata" by (simp add: refresh_nodata_def)
  from nodata_refresh_leaves_snapshots_and_interrupts_alone
      [where E=E0 and qs="[]" and w=w0, OF surjective_pairing sk] ok sk
  show ?thesis by simp
qed

text \<open>
  C7. Rule-shape invariant. When the relation is a materialized view without rules (flag
  off or empty array), with more than one rule, with a rule that is not SELECT INSTEAD, or
  with a rule whose action list is not of length one, the refresh never succeeds; it makes
  no call after \<^verbatim>\<open>heap_open\<close> of the view and changes nothing but the trace, so no rule
  or action is picked and used; and unless a backend call raised or an assertion trapped
  before the checks, the error is an internal \<^verbatim>\<open>elog(ERROR)\<close>.
\<close>

theorem rule_shape_violation_is_internal_error:
  assumes run: "ExecRefreshMatView E stmt qs w = (r, w')"
    and v: "resolve E (relation stmt) = Some v" and rd: "rels w v = Some rd"
    and kind: "relkind rd = RELKIND_MATVIEW"
    and bad: "relhasrules rd = False \<or> length (rd_rules rd) \<noteq> 1
              \<or> (\<exists>rule. rd_rules rd = [rule]
                    \<and> (event rule \<noteq> CMD_SELECT \<or> \<not> isInstead rule
                        \<or> length (actions rule) \<noteq> 1))"
  shows "(\<exists>e. r = Inl e)
     \<and> w' = w\<lparr>trace := trace w'\<rparr>
     \<and> (\<exists>evs. trace w' = trace w @ evs
           \<and> prefix evs [X_RangeVarGetRelidExtended (relation stmt), X_heap_open v])
     \<and> ((\<forall>tr c. \<not> fails E tr c) \<and> (assert_enabled E \<longrightarrow> \<not> rd_issystem rd \<and> \<not> relhasoids rd)
          \<longrightarrow> (\<exists>msg. r = Inl (Elog msg)))"
proof -
  from run have run':
    "bnd (refresh_prologue E stmt) (\<lambda>(v, q, t).
     bnd (if \<not> skipData stmt
          then refresh_matview_datafill E (CreateTransientRelDestReceiver t) q qs
          else ret ()) (\<lambda>_.
     bnd (finish_heap_swap E v t) (\<lambda>_.
     RelationCacheInvalidateEntry E v))) w = (r, w')"
    by (simp add: ExecRefreshMatView_split)
  from run' show ?thesis
  proof (cases rule: bndE)
    case (err e)
    from err(1) v rd kind bad have
      "w' = w\<lparr>trace := trace w'\<rparr>
     \<and> (\<exists>evs. trace w' = trace w @ evs
           \<and> prefix evs [X_RangeVarGetRelidExtended (relation stmt), X_heap_open v])
       \<and> ((\<forall>tr c. \<not> fails E tr c) \<and> (assert_enabled E \<longrightarrow> \<not> rd_issystem rd \<and> \<not> relhasoids rd)
          \<longrightarrow> (\<exists>msg. e = Elog msg))"
      unfolding refresh_prologue_def refresh_defs
      by (auto simp: bnd_def prim_defs
          split: if_splits option.splits sum.splits prod.splits list.splits)
    with err(2) show ?thesis by simp
  next
    case (ok x w1)
    obtain v' q t where x: "x = (v', q, t)" by (cases x)
    from refresh_prologue_any[OF ok(1)] x v rd bad have False by auto
    then show ?thesis ..
  qed
qed

text \<open>
  The concrete view with its rule array emptied.
\<close>

theorem rule_shape_violation_is_internal_error_witness:
  "resolve E0 (relation refresh_data) = Some 1
   \<and> rels w0_norules 1 = Some (view0\<lparr>rd_rules := []\<rparr>)
   \<and> relkind (view0\<lparr>rd_rules := []\<rparr>) = RELKIND_MATVIEW
   \<and> length (rd_rules (view0\<lparr>rd_rules := []\<rparr>)) \<noteq> 1
   \<and> (\<forall>tr c. \<not> fails E0 tr c)
   \<and> \<not> rd_issystem (view0\<lparr>rd_rules := []\<rparr>) \<and> \<not> relhasoids (view0\<lparr>rd_rules := []\<rparr>)
   \<and> (\<exists>msg. fst (ExecRefreshMatView E0 refresh_data [] w0_norules) = Inl (Elog msg))
   \<and> snd (ExecRefreshMatView E0 refresh_data [] w0_norules)
         = w0_norules\<lparr>trace := trace (snd (ExecRefreshMatView E0 refresh_data [] w0_norules))\<rparr>
   \<and> (\<exists>evs. trace (snd (ExecRefreshMatView E0 refresh_data [] w0_norules))
               = trace w0_norules @ evs
          \<and> prefix evs [X_RangeVarGetRelidExtended ''v'', X_heap_open 1])"
proof -
  have v: "resolve E0 (relation refresh_data) = Some 1"
    by (simp add: E0_def refresh_data_def)
  have rd: "rels w0_norules 1 = Some (view0\<lparr>rd_rules := []\<rparr>)"
    by (simp add: w0_norules_def)
  have kind: "relkind (view0\<lparr>rd_rules := []\<rparr>) = RELKIND_MATVIEW"
    by (simp add: view0_def)
  have len: "length (rd_rules (view0\<lparr>rd_rules := []\<rparr>)) \<noteq> 1" by simp
  then have bad: "relhasrules (view0\<lparr>rd_rules := []\<rparr>) = False
              \<or> length (rd_rules (view0\<lparr>rd_rules := []\<rparr>)) \<noteq> 1
              \<or> (\<exists>rule. rd_rules (view0\<lparr>rd_rules := []\<rparr>) = [rule]
                    \<and> (event rule \<noteq> CMD_SELECT \<or> \<not> isInstead rule
                        \<or> length (actions rule) \<noteq> 1))"
    by blast
  have nf: "\<forall>tr c. \<not> fails E0 tr c" by (simp add: E0_def)
  have as: "\<not> rd_issystem (view0\<lparr>rd_rules := []\<rparr>) \<and> \<not> relhasoids (view0\<lparr>rd_rules := []\<rparr>)"
    by (simp add: view0_def)
  from rule_shape_violation_is_internal_error[where qs="[]", OF surjective_pairing v rd kind bad]
    nf as
  have "(\<exists>msg. fst (ExecRefreshMatView E0 refresh_data [] w0_norules) = Inl (Elog msg))
   \<and> snd (ExecRefreshMatView E0 refresh_data [] w0_norules)
         = w0_norules\<lparr>trace := trace (snd (ExecRefreshMatView E0 refresh_data [] w0_norules))\<rparr>
   \<and> (\<exists>evs. trace (snd (ExecRefreshMatView E0 refresh_data [] w0_norules))
               = trace w0_norules @ evs
          \<and> prefix evs [X_RangeVarGetRelidExtended (relation refresh_data), X_heap_open 1])"
    by blast
  then show ?thesis using v rd kind len nf as by (simp add: refresh_data_def)
qed

text \<open>
  C8. Active-use guard. When the transaction still has the view in use, the refresh never
  succeeds, it makes no call after \<^verbatim>\<open>heap_open\<close> of the view (in particular no
  \<^verbatim>\<open>make_new_heap\<close>) and changes nothing but the trace: no transient storage exists.
  For a well-formed view, with no backend call raising on its own, the error is the
  object-in-use error of \<^verbatim>\<open>CheckTableNotInUse\<close>.
\<close>

theorem active_use_fails_before_transient_creation:
  assumes run: "ExecRefreshMatView E stmt qs w = (r, w')"
    and v: "resolve E (relation stmt) = Some v" and rd: "rels w v = Some rd"
    and inuse: "0 < open_scans rd"
  shows "(\<exists>e. r = Inl e)
     \<and> w' = w\<lparr>trace := trace w'\<rparr>
     \<and> (\<exists>evs. trace w' = trace w @ evs
           \<and> prefix evs [X_RangeVarGetRelidExtended (relation stmt), X_heap_open v])
     \<and> ((\<forall>tr c. \<not> fails E tr c) \<and> (assert_enabled E \<longrightarrow> \<not> rd_issystem rd \<and> \<not> relhasoids rd)
          \<and> relkind rd = RELKIND_MATVIEW \<and> relhasrules rd
          \<and> (\<exists>rule q. rd_rules rd = [rule] \<and> event rule = CMD_SELECT \<and> isInstead rule
                \<and> actions rule = [q])
          \<longrightarrow> r = Inl (Ereport ERRCODE_OBJECT_IN_USE
                        ''relation is being used by active queries in this session''))"
proof -
  from run have run':
    "bnd (refresh_prologue E stmt) (\<lambda>(v, q, t).
     bnd (if \<not> skipData stmt
          then refresh_matview_datafill E (CreateTransientRelDestReceiver t) q qs
          else ret ()) (\<lambda>_.
     bnd (finish_heap_swap E v t) (\<lambda>_.
     RelationCacheInvalidateEntry E v))) w = (r, w')"
    by (simp add: ExecRefreshMatView_split)
  from run' show ?thesis
  proof (cases rule: bndE)
    case (err e)
    from err(1) v rd inuse have
      "w' = w\<lparr>trace := trace w'\<rparr>
     \<and> (\<exists>evs. trace w' = trace w @ evs
           \<and> prefix evs [X_RangeVarGetRelidExtended (relation stmt), X_heap_open v])
       \<and> ((\<forall>tr c. \<not> fails E tr c) \<and> (assert_enabled E \<longrightarrow> \<not> rd_issystem rd \<and> \<not> relhasoids rd)
          \<and> relkind rd = RELKIND_MATVIEW \<and> relhasrules rd
          \<and> (\<exists>rule q. rd_rules rd = [rule] \<and> event rule = CMD_SELECT \<and> isInstead rule
                \<and> actions rule = [q])
          \<longrightarrow> e = Ereport ERRCODE_OBJECT_IN_USE
                        ''relation is being used by active queries in this session'')"
      unfolding refresh_prologue_def refresh_defs
      by (auto simp: bnd_def prim_defs
          split: if_splits option.splits sum.splits prod.splits list.splits)
    with err(2) show ?thesis by simp
  next
    case (ok x w1)
    obtain v' q t where x: "x = (v', q, t)" by (cases x)
    from refresh_prologue_any[OF ok(1)] x v rd inuse have False by auto
    then show ?thesis ..
  qed
qed

text \<open>
  The concrete view with one scan open.
\<close>

theorem active_use_fails_before_transient_creation_witness:
  "resolve E0 (relation refresh_data) = Some 1
   \<and> rels w0_inuse 1 = Some (view0\<lparr>open_scans := 1\<rparr>)
   \<and> 0 < open_scans (view0\<lparr>open_scans := 1\<rparr>)
   \<and> (\<forall>tr c. \<not> fails E0 tr c)
   \<and> fst (ExecRefreshMatView E0 refresh_data [] w0_inuse)
        = Inl (Ereport ERRCODE_OBJECT_IN_USE
                 ''relation is being used by active queries in this session'')
   \<and> snd (ExecRefreshMatView E0 refresh_data [] w0_inuse)
         = w0_inuse\<lparr>trace := trace (snd (ExecRefreshMatView E0 refresh_data [] w0_inuse))\<rparr>
   \<and> (\<exists>evs. trace (snd (ExecRefreshMatView E0 refresh_data [] w0_inuse))
               = trace w0_inuse @ evs
          \<and> prefix evs [X_RangeVarGetRelidExtended ''v'', X_heap_open 1])"
proof -
  let ?rd = "view0\<lparr>open_scans := 1\<rparr>"
  have v: "resolve E0 (relation refresh_data) = Some 1"
    by (simp add: E0_def refresh_data_def)
  have rd: "rels w0_inuse 1 = Some ?rd"
    by (simp add: w0_inuse_def)
  have inuse: "0 < open_scans ?rd" by simp
  have nf: "\<forall>tr c. \<not> fails E0 tr c" by (simp add: E0_def)
  have valid: "(assert_enabled E0 \<longrightarrow> \<not> rd_issystem ?rd \<and> \<not> relhasoids ?rd)
          \<and> relkind ?rd = RELKIND_MATVIEW \<and> relhasrules ?rd
          \<and> (\<exists>rule q. rd_rules ?rd = [rule] \<and> event rule = CMD_SELECT \<and> isInstead rule
                \<and> actions rule = [q])"
    by (simp add: view0_def)
  from active_use_fails_before_transient_creation[where qs="[]", OF surjective_pairing v rd inuse]
    nf valid
  have "fst (ExecRefreshMatView E0 refresh_data [] w0_inuse)
        = Inl (Ereport ERRCODE_OBJECT_IN_USE
                 ''relation is being used by active queries in this session'')
   \<and> snd (ExecRefreshMatView E0 refresh_data [] w0_inuse)
         = w0_inuse\<lparr>trace := trace (snd (ExecRefreshMatView E0 refresh_data [] w0_inuse))\<rparr>
   \<and> (\<exists>evs. trace (snd (ExecRefreshMatView E0 refresh_data [] w0_inuse))
               = trace w0_inuse @ evs
          \<and> prefix evs [X_RangeVarGetRelidExtended (relation refresh_data), X_heap_open 1])"
    by blast
  then show ?thesis using v rd inuse nf by (simp add: refresh_data_def)
qed

lemma filter_prefix_Nil: "prefix xs ys \<Longrightarrow> filter P ys = [] \<Longrightarrow> filter P xs = []"
  by (auto simp: prefix_def)

lemma ExecutePlan_calls_Cons:
  "ExecutePlan_calls t cid opts (tup # rows) =
     X_ExecProcNode tup # X_heap_insert t tup cid opts # ExecutePlan_calls t cid opts rows"
  by (simp add: ExecutePlan_calls_def)

lemma ExecutePlan_calls_Nil: "ExecutePlan_calls t cid opts [] = []"
  by (simp add: ExecutePlan_calls_def)

lemma filter_ExecutePlan_calls:
  assumes "\<And>tup. \<not> P (X_ExecProcNode tup)" "\<And>tup. \<not> P (X_heap_insert t tup cid opts)"
  shows "filter P (ExecutePlan_calls t cid opts rows) = []"
  using assms by (induction rows) (simp_all add: ExecutePlan_calls_Cons ExecutePlan_calls_Nil)

lemma inserts_of_ExecutePlan_calls:
  "filter is_heap_insert (ExecutePlan_calls t cid opts rows)
     = map (\<lambda>tup. X_heap_insert t tup cid opts) rows"
  by (induction rows) (simp_all add: ExecutePlan_calls_Cons ExecutePlan_calls_Nil)

lemma no_snapshot_ExecutorRun_calls:
  "filter snapshot_call (ExecutorRun_calls E rd t cid rows) = []"
  by (simp add: ExecutorRun_calls_def transientrel_startup_calls_def
      SetMatViewToPopulated_calls_def transientrel_shutdown_calls_def
      filter_ExecutePlan_calls snapshot_call_def)








text \<open>
  C5, as amended. In every data fill, the calls made are an initial part of the sequence
  \<open>datafill_calls\<close>, and all of it when the data fill returns; then they are, in this
  order: the rewrite, the interrupt check, the planning of the query, then
  \<^verbatim>\<open>PushCopiedSnapshot\<close> and \<^verbatim>\<open>UpdateActiveSnapshotCommandId\<close>, then the creation of
  the query descriptor with the pushed snapshot and the executor start, run, finish and
  end, the release of the descriptor, and \<^verbatim>\<open>PopActiveSnapshot\<close> as the last call. No
  snapshot call is made during the executor run, and the stack is afterwards what it was
  before. So the snapshot is pushed after planning and before execution, stays active
  throughout execution, and is popped right after execution is cleaned up.
\<close>

theorem snapshot_pushed_after_planning_popped_after_execution:
  assumes run: "refresh_matview_datafill E d q qs w = (r, w')"
    and rd: "rels w (transientoid d) = Some rd" and f: "smgr w (rd_node rd) = Some f"
  shows "\<exists>evs. trace w' = trace w @ evs
     \<and> prefix evs (datafill_calls E q w rd (transientoid d))
     \<and> (r = Inr () \<longrightarrow>
          (\<exists>q1 s ss. rewriter E q = [q1] \<and> ActiveSnapshot w = s # ss
             \<and> evs =
                 [X_QueryRewrite q, X_CHECK_FOR_INTERRUPTS,
                  X_pg_plan_query (flag_result_rels q1),
                  X_PushCopiedSnapshot, X_UpdateActiveSnapshotCommandId,
                  X_CreateQueryDesc (planner E (flag_result_rels q1)),
                  X_ExecutorStart (planner E (flag_result_rels q1))]
                 @ ExecutorRun_calls E rd (transientoid d) (currentCommandId w)
                     (plan_rows E (planner E (flag_result_rels q1))
                        (s\<lparr>curcid := currentCommandId w\<rparr>))
                 @ [X_ExecutorFinish (planner E (flag_result_rels q1)),
                    X_ExecutorEnd (planner E (flag_result_rels q1)),
                    X_FreeQueryDesc (planner E (flag_result_rels q1)),
                    X_PopActiveSnapshot]
             \<and> filter snapshot_call
                   (ExecutorRun_calls E rd (transientoid d) (currentCommandId w)
                      (plan_rows E (planner E (flag_result_rels q1))
                         (s\<lparr>curcid := currentCommandId w\<rparr>))) = []
             \<and> ActiveSnapshot w' = ActiveSnapshot w))"
proof -
  from datafill_summary[OF run rd f] obtain evs g b a where
    w': "w' = w\<lparr>trace := trace w @ evs,
               smgr := (smgr w)(rd_node rd := g),
               rels := (rels w)(transientoid d \<mapsto> rd\<lparr>rd_ispopulated := b\<rparr>),
               ActiveSnapshot := a\<rparr>" and
    pre: "prefix evs (datafill_calls E q w rd (transientoid d))" and
    fin: "r = Inr () \<longrightarrow>
          evs = datafill_calls E q w rd (transientoid d) \<and> b \<and> a = ActiveSnapshot w
          \<and> (\<exists>q1 x y rest s ss. rewriter E q = [q1] \<and> rtable q1 = x # y # rest
                \<and> ActiveSnapshot w = s # ss
                \<and> g = Some (close_file E (fold (insert_row E)
                            (datafill_rows E q1 s (currentCommandId w)) (populate_file f))))"
    by blast
  have tr: "trace w' = trace w @ evs" by (simp add: w')
  have ret: "r = Inr () \<longrightarrow>
          (\<exists>q1 s ss. rewriter E q = [q1] \<and> ActiveSnapshot w = s # ss
             \<and> evs =
                 [X_QueryRewrite q, X_CHECK_FOR_INTERRUPTS,
                  X_pg_plan_query (flag_result_rels q1),
                  X_PushCopiedSnapshot, X_UpdateActiveSnapshotCommandId,
                  X_CreateQueryDesc (planner E (flag_result_rels q1)),
                  X_ExecutorStart (planner E (flag_result_rels q1))]
                 @ ExecutorRun_calls E rd (transientoid d) (currentCommandId w)
                     (plan_rows E (planner E (flag_result_rels q1))
                        (s\<lparr>curcid := currentCommandId w\<rparr>))
                 @ [X_ExecutorFinish (planner E (flag_result_rels q1)),
                    X_ExecutorEnd (planner E (flag_result_rels q1)),
                    X_FreeQueryDesc (planner E (flag_result_rels q1)),
                    X_PopActiveSnapshot]
             \<and> filter snapshot_call
                   (ExecutorRun_calls E rd (transientoid d) (currentCommandId w)
                      (plan_rows E (planner E (flag_result_rels q1))
                         (s\<lparr>curcid := currentCommandId w\<rparr>))) = []
             \<and> ActiveSnapshot w' = ActiveSnapshot w)"
  proof
    assume "r = Inr ()"
    with fin obtain q1 x y rest s ss where
      evs: "evs = datafill_calls E q w rd (transientoid d)" and
      a: "a = ActiveSnapshot w" and
      q1: "rewriter E q = [q1]" and rt: "rtable q1 = x # y # rest" and
      s: "ActiveSnapshot w = s # ss"
      by blast
    have as: "ActiveSnapshot w' = ActiveSnapshot w" by (simp add: w' a)
    show "\<exists>q1 s ss. rewriter E q = [q1] \<and> ActiveSnapshot w = s # ss
             \<and> evs =
                 [X_QueryRewrite q, X_CHECK_FOR_INTERRUPTS,
                  X_pg_plan_query (flag_result_rels q1),
                  X_PushCopiedSnapshot, X_UpdateActiveSnapshotCommandId,
                  X_CreateQueryDesc (planner E (flag_result_rels q1)),
                  X_ExecutorStart (planner E (flag_result_rels q1))]
                 @ ExecutorRun_calls E rd (transientoid d) (currentCommandId w)
                     (plan_rows E (planner E (flag_result_rels q1))
                        (s\<lparr>curcid := currentCommandId w\<rparr>))
                 @ [X_ExecutorFinish (planner E (flag_result_rels q1)),
                    X_ExecutorEnd (planner E (flag_result_rels q1)),
                    X_FreeQueryDesc (planner E (flag_result_rels q1)),
                    X_PopActiveSnapshot]
             \<and> filter snapshot_call
                   (ExecutorRun_calls E rd (transientoid d) (currentCommandId w)
                      (plan_rows E (planner E (flag_result_rels q1))
                         (s\<lparr>curcid := currentCommandId w\<rparr>))) = []
             \<and> ActiveSnapshot w' = ActiveSnapshot w"
      apply (rule exI[where x=q1])
      apply (rule exI[where x=s])
      apply (rule exI[where x=ss])
      using q1 rt s evs as
      apply (simp add: datafill_calls_def datafill_rows_def no_snapshot_ExecutorRun_calls)
      done
  qed
  show ?thesis
    by (rule exI[where x=evs]) (intro conjI tr pre ret)
qed

text \<open>
  The data fill on the concrete database.
\<close>

theorem snapshot_pushed_after_planning_popped_after_execution_witness:
  "fst (refresh_matview_datafill E0 d0 q0 [] wT) = Inr ()
   \<and> rels wT (transientoid d0) = Some (new_heap_entry view0 0 2)
   \<and> smgr wT (rd_node (new_heap_entry view0 0 2)) = Some empty_file
   \<and> ActiveSnapshot (snd (refresh_matview_datafill E0 d0 q0 [] wT)) = ActiveSnapshot wT
   \<and> (\<exists>run. trace (snd (refresh_matview_datafill E0 d0 q0 [] wT)) = trace wT
         @ [X_QueryRewrite q0, X_CHECK_FOR_INTERRUPTS, X_pg_plan_query (flag_result_rels q0),
            X_PushCopiedSnapshot, X_UpdateActiveSnapshotCommandId,
            X_CreateQueryDesc 7, X_ExecutorStart 7]
         @ run
         @ [X_ExecutorFinish 7, X_ExecutorEnd 7, X_FreeQueryDesc 7, X_PopActiveSnapshot]
        \<and> filter snapshot_call run = [])"
proof -
  have ok: "fst (refresh_matview_datafill E0 d0 q0 [] wT) = Inr ()"
    by (simp add: model_defs example_defs)
  have rd: "rels wT (transientoid d0) = Some (new_heap_entry view0 0 2)"
    by (simp add: wT_def d0_def CreateTransientRelDestReceiver_def)
  have f: "smgr wT (rd_node (new_heap_entry view0 0 2)) = Some empty_file"
    by (simp add: wT_def new_heap_entry_def)
  have rw: "rewriter E0 q0 = [q0]" and pl: "\<And>x. planner E0 x = 7"
    by (simp_all add: E0_def)
  from snapshot_pushed_after_planning_popped_after_execution
         [where E=E0 and q=q0 and qs="[]", OF surjective_pairing rd f]
  show ?thesis using ok rd f by (auto simp: rw pl)
qed

lemma run_data_trace:
  "fst (ExecRefreshMatView E0 refresh_data [] w0) = Inr ()
   \<and> trace (snd (ExecRefreshMatView E0 refresh_data [] w0)) =
       [X_RangeVarGetRelidExtended ''v'', X_heap_open 1, X_CheckTableNotInUse 1,
        X_heap_close 1, X_make_new_heap 1 0,
        X_QueryRewrite q0, X_CHECK_FOR_INTERRUPTS, X_pg_plan_query (flag_result_rels q0),
        X_PushCopiedSnapshot, X_UpdateActiveSnapshotCommandId,
        X_CreateQueryDesc 7, X_ExecutorStart 7,
        X_heap_open 2, X_GetBulkInsertState,
        X_log_newpage 2 0, X_RelationOpenSmgr 2, X_smgrextend 2 0, X_smgrimmedsync 2,
        X_RelationCacheInvalidateEntry 2,
        X_ExecProcNode [3, 150], X_heap_insert 2 [3, 150] 1 7,
        X_ExecProcNode [7, 200], X_heap_insert 2 [7, 200] 1 7,
        X_FreeBulkInsertState, X_heap_sync 2, X_heap_close 2,
        X_ExecutorFinish 7, X_ExecutorEnd 7, X_FreeQueryDesc 7, X_PopActiveSnapshot,
        X_finish_heap_swap 1 2, X_RelationCacheInvalidateEntry 1]"
  by (simp add: model_defs example_defs flag_result_rels_def)

text \<open>
  C5, as stated, fails: in the refresh of the concrete view the query is planned before
  the snapshot is pushed, and no snapshot is pushed before the planning.
\<close>

theorem snapshot_pushed_before_planning_counterexample:
  "fst (ExecRefreshMatView E0 refresh_data [] w0) = Inr ()
   \<and> \<not> skipData refresh_data
   \<and> X_pg_plan_query (flag_result_rels q0)
        \<in> set (calls_before X_PushCopiedSnapshot
                 (trace (snd (ExecRefreshMatView E0 refresh_data [] w0))))
   \<and> X_PushCopiedSnapshot
        \<notin> set (calls_before (X_pg_plan_query (flag_result_rels q0))
                 (trace (snd (ExecRefreshMatView E0 refresh_data [] w0))))"
  using run_data_trace by (simp add: refresh_data_def)

lemma no_insert_startup_calls:
  "filter is_heap_insert (transientrel_startup_calls rd t) = []"
  by (simp add: transientrel_startup_calls_def SetMatViewToPopulated_calls_def)

lemma no_transition_after_startup:
  "filter (\<lambda>c. c \<in> set (SetMatViewToPopulated_calls rd t))
     (ExecutePlan_calls t cid opts rows @ transientrel_shutdown_calls opts t) = []"
  by (auto simp: filter_ExecutePlan_calls SetMatViewToPopulated_calls_def
      transientrel_shutdown_calls_def)

lemma inserts_after_startup:
  "filter is_heap_insert (ExecutePlan_calls t cid opts rows @ transientrel_shutdown_calls opts t)
     = map (\<lambda>tup. X_heap_insert t tup cid opts) rows"
  by (simp add: inserts_of_ExecutePlan_calls transientrel_shutdown_calls_def)

text \<open>
  C3. Populated before any row. The engine opens the receiver, hands it the rows, and
  closes it. Whatever happens in such a run (it may fail at any call), either no row has
  been inserted at all, or the calls made begin with the open phase, \<^verbatim>\<open>heap_open\<close> and
  \<^verbatim>\<open>GetBulkInsertState\<close> followed by the complete populated-state transition on the
  transient relation (none of whose calls is an insert), and none of the calls after it
  belongs to the transition: the transition happens once, at open time, before any row
  is inserted. In a run that returns, this is the case, and the inserts that follow the
  transition are exactly the rows of the plan, in order, into the transient relation.
\<close>

theorem populated_once_before_any_row:
  assumes run: "ExecutorRun E qd w = (r, w')"
    and rd: "rels w (transientoid (dest qd)) = Some rd"
    and f: "smgr w (rd_node rd) = Some f"
  shows "\<exists>evs. trace w' = trace w @ evs
     \<and> (filter is_heap_insert evs = []
         \<or> (\<exists>rest. evs = [X_heap_open (transientoid (dest qd)), X_GetBulkInsertState]
                        @ SetMatViewToPopulated_calls rd (transientoid (dest qd)) @ rest
               \<and> filter (\<lambda>c. c \<in> set (SetMatViewToPopulated_calls rd (transientoid (dest qd))))
                    rest = []))
     \<and> ((\<exists>d'. r = Inr d') \<longrightarrow>
          (\<exists>rest. evs = [X_heap_open (transientoid (dest qd)), X_GetBulkInsertState]
                        @ SetMatViewToPopulated_calls rd (transientoid (dest qd)) @ rest
               \<and> filter (\<lambda>c. c \<in> set (SetMatViewToPopulated_calls rd (transientoid (dest qd))))
                    rest = []
               \<and> filter is_heap_insert rest
                    = map (\<lambda>tup. X_heap_insert (transientoid (dest qd)) tup
                                   (currentCommandId w) (startup_options E))
                          (plan_rows E (plannedstmt qd) (snapshot qd))))"
proof -
  let ?t = "transientoid (dest qd)"
  let ?T = "SetMatViewToPopulated_calls rd ?t"
  let ?S = "transientrel_startup_calls rd ?t"
  let ?R = "ExecutePlan_calls ?t (currentCommandId w) (startup_options E)
              (plan_rows E (plannedstmt qd) (snapshot qd))
            @ transientrel_shutdown_calls (startup_options E) ?t"
  have S: "?S = [X_heap_open ?t, X_GetBulkInsertState] @ ?T"
    by (simp add: transientrel_startup_calls_def)
  have C: "ExecutorRun_calls E rd ?t (currentCommandId w)
              (plan_rows E (plannedstmt qd) (snapshot qd)) = ?S @ ?R"
    by (simp add: ExecutorRun_calls_def)
  from ExecutorRun_frame[OF run rd f] obtain evs g b where
    w': "w' = w\<lparr>trace := trace w @ evs, smgr := (smgr w)(rd_node rd := g),
               rels := (rels w)(?t \<mapsto> rd\<lparr>rd_ispopulated := b\<rparr>)\<rparr>" and
    pre0: "prefix evs (ExecutorRun_calls E rd ?t (currentCommandId w)
              (plan_rows E (plannedstmt qd) (snapshot qd)))" and
    fin0: "\<forall>d'. r = Inr d' \<longrightarrow> evs = ExecutorRun_calls E rd ?t (currentCommandId w)
              (plan_rows E (plannedstmt qd) (snapshot qd))"
    by blast
  have pre: "prefix evs (?S @ ?R)" using pre0 unfolding C .
  have fin: "\<forall>d'. r = Inr d' \<longrightarrow> evs = ?S @ ?R" using fin0 unfolding C .
  have tr: "trace w' = trace w @ evs" by (simp add: w')
  from pre have "prefix evs ?S \<or> (\<exists>us. evs = ?S @ us \<and> prefix us ?R)"
    by (simp add: prefix_append)
  then have shape: "filter is_heap_insert evs = []
         \<or> (\<exists>rest. evs = [X_heap_open ?t, X_GetBulkInsertState] @ ?T @ rest
               \<and> filter (\<lambda>c. c \<in> set ?T) rest = [])"
  proof
    assume "prefix evs ?S"
    then have "filter is_heap_insert evs = []"
      using no_insert_startup_calls by (rule filter_prefix_Nil)
    then show ?thesis ..
  next
    assume "\<exists>us. evs = ?S @ us \<and> prefix us ?R"
    then obtain us where us: "evs = ?S @ us" and p: "prefix us ?R" by blast
    from p have "filter (\<lambda>c. c \<in> set ?T) us = []"
      using no_transition_after_startup by (rule filter_prefix_Nil)
    have "evs = [X_heap_open ?t, X_GetBulkInsertState] @ ?T @ us"
      unfolding us S by simp
    with \<open>filter (\<lambda>c. c \<in> set ?T) us = []\<close> show ?thesis by blast
  qed
  have complete: "(\<exists>d'. r = Inr d') \<longrightarrow>
          (\<exists>rest. evs = [X_heap_open ?t, X_GetBulkInsertState] @ ?T @ rest
               \<and> filter (\<lambda>c. c \<in> set ?T) rest = []
               \<and> filter is_heap_insert rest
                    = map (\<lambda>tup. X_heap_insert ?t tup (currentCommandId w) (startup_options E))
                          (plan_rows E (plannedstmt qd) (snapshot qd)))"
  proof
    assume "\<exists>d'. r = Inr d'"
    with fin have "evs = ?S @ ?R" by blast
    then have "evs = [X_heap_open ?t, X_GetBulkInsertState] @ ?T @ ?R"
      unfolding S by simp
    moreover have "filter (\<lambda>c. c \<in> set ?T) ?R = []" by (rule no_transition_after_startup)
    moreover have "filter is_heap_insert ?R
                    = map (\<lambda>tup. X_heap_insert ?t tup (currentCommandId w) (startup_options E))
                          (plan_rows E (plannedstmt qd) (snapshot qd))"
      by (rule inserts_after_startup)
    ultimately show "\<exists>rest. evs = [X_heap_open ?t, X_GetBulkInsertState] @ ?T @ rest
               \<and> filter (\<lambda>c. c \<in> set ?T) rest = []
               \<and> filter is_heap_insert rest
                    = map (\<lambda>tup. X_heap_insert ?t tup (currentCommandId w) (startup_options E))
                          (plan_rows E (plannedstmt qd) (snapshot qd))"
      by blast
  qed
  show ?thesis
    by (rule exI[where x=evs]) (intro conjI tr shape complete)
qed

text \<open>
  The executor run on the concrete database, which inserts two rows.
\<close>

theorem populated_once_before_any_row_witness:
  "rels wT (transientoid (dest qd0)) = Some (new_heap_entry view0 0 2)
   \<and> smgr wT (rd_node (new_heap_entry view0 0 2)) = Some empty_file
   \<and> fst (ExecutorRun E0 qd0 wT) = Inr (d0_open\<lparr>transientrel := None\<rparr>)
   \<and> (\<exists>rest. trace (snd (ExecutorRun E0 qd0 wT)) = trace wT
          @ [X_heap_open 2, X_GetBulkInsertState]
          @ SetMatViewToPopulated_calls (new_heap_entry view0 0 2) 2 @ rest
        \<and> filter (\<lambda>c. c \<in> set (SetMatViewToPopulated_calls (new_heap_entry view0 0 2) 2)) rest = []
        \<and> filter is_heap_insert rest
             = [X_heap_insert 2 [3, 150] 1 7, X_heap_insert 2 [7, 200] 1 7])"
proof -
  have ok: "fst (ExecutorRun E0 qd0 wT) = Inr (d0_open\<lparr>transientrel := None\<rparr>)"
    by (simp add: model_defs example_defs qd0_def)
  have rd: "rels wT (transientoid (dest qd0)) = Some (new_heap_entry view0 0 2)"
    by (simp add: wT_def qd0_def d0_def CreateTransientRelDestReceiver_def)
  have f: "smgr wT (rd_node (new_heap_entry view0 0 2)) = Some empty_file"
    by (simp add: wT_def new_heap_entry_def)
  have t: "transientoid (dest qd0) = 2"
    by (simp add: qd0_def d0_def CreateTransientRelDestReceiver_def)
  have c: "currentCommandId wT = 1" by (simp add: wT_def)
  have o: "startup_options E0 = 7"
    by (simp add: startup_options_def E0_def HEAP_INSERT_SKIP_WAL_def HEAP_INSERT_SKIP_FSM_def
        HEAP_INSERT_FROZEN_def)
  have rows: "plan_rows E0 (plannedstmt qd0) (snapshot qd0) = [[3, 150], [7, 200]]"
    by (simp add: E0_def)
  from populated_once_before_any_row[where E=E0 and qd=qd0 and w=wT, OF surjective_pairing rd f] ok
  have "\<exists>rest. trace (snd (ExecutorRun E0 qd0 wT)) = trace wT
          @ [X_heap_open 2, X_GetBulkInsertState]
          @ SetMatViewToPopulated_calls (new_heap_entry view0 0 2) 2 @ rest
        \<and> filter (\<lambda>c. c \<in> set (SetMatViewToPopulated_calls (new_heap_entry view0 0 2) 2)) rest = []
        \<and> filter is_heap_insert rest
             = [X_heap_insert 2 [3, 150] 1 7, X_heap_insert 2 [7, 200] 1 7]"
    unfolding t c o rows by auto
  with rd f ok show ?thesis by blast
qed

















text \<open>
  C6, as amended. Two no-data refreshes in a row, both returning: after each of them the
  view's cache entry is what it was before the first, except that its storage identity
  is the one just handed out by the OID counter and that it is marked unpopulated; the
  file at the new identity has no block; the three storage identities are pairwise
  different. The view's own OID and the rest of its catalog entry do not change.
\<close>

theorem nodata_refresh_twice:
  assumes skip: "skipData stmt"
    and v: "resolve E (relation stmt) = Some v" and rd: "rels w v = Some rd"
    and fresh: "v < nextOid w" "rd_node rd < nextOid w"
    and run1: "ExecRefreshMatView E stmt qs w = (Inr (), w1)"
    and run2: "ExecRefreshMatView E stmt qs w1 = (Inr (), w2)"
  shows "rels w1 v = Some (rd\<lparr>rd_node := nextOid w, rd_ispopulated := False\<rparr>)
     \<and> smgr w1 (nextOid w) = Some empty_file
     \<and> rels w2 v = Some (rd\<lparr>rd_node := nextOid w1, rd_ispopulated := False\<rparr>)
     \<and> smgr w2 (nextOid w1) = Some empty_file
     \<and> blocks empty_file = []
     \<and> nextOid w \<noteq> rd_node rd \<and> nextOid w1 \<noteq> nextOid w \<and> nextOid w1 \<noteq> rd_node rd"
proof -
  have ne: "v \<noteq> nextOid w" "rd_node rd \<noteq> nextOid w" using fresh by simp_all
  let ?rd1 = "rd\<lparr>rd_node := nextOid w, rd_ispopulated := False\<rparr>"
  have first: "rels w1 v = Some ?rd1 \<and> smgr w1 (nextOid w) = Some empty_file
      \<and> nextOid w1 = Suc (nextOid w)"
  proof (rule ExecRefreshMatView_cases[OF run1 v rd fresh], goal_cases)
    case (1 e evs)
    then show ?case by simp
  next
    case (2 e rule q evs g b a)
    then show ?case by simp
  next
    case (3 rule q)
    have "refresh_file E stmt q w = empty_file" using skip by (simp add: refresh_file_def)
    with 3(6) ne show ?case by (simp add: empty_file_def)
  qed
  then have rd1: "rels w1 v = Some ?rd1" and f1: "smgr w1 (nextOid w) = Some empty_file"
    and n1: "nextOid w1 = Suc (nextOid w)" by simp_all
  have fresh1: "v < nextOid w1" "rd_node ?rd1 < nextOid w1"
    using fresh by (simp_all add: n1)
  have ne1: "v \<noteq> nextOid w1" using fresh1 by simp
  have second: "rels w2 v = Some (rd\<lparr>rd_node := nextOid w1, rd_ispopulated := False\<rparr>)
      \<and> smgr w2 (nextOid w1) = Some empty_file"
  proof (rule ExecRefreshMatView_cases[OF run2 v rd1 fresh1], goal_cases)
    case (1 e evs)
    then show ?case by simp
  next
    case (2 e rule q evs g b a)
    then show ?case by simp
  next
    case (3 rule q)
    have "refresh_file E stmt q w1 = empty_file" using skip by (simp add: refresh_file_def)
    with 3(6) ne1 n1 show ?case by (simp add: empty_file_def)
  qed
  from first second ne fresh show ?thesis
    by (simp add: empty_file_def n1)
qed

lemma run_nodata_twice:
  "fst (ExecRefreshMatView E0 refresh_nodata [] w0) = Inr ()
   \<and> fst (ExecRefreshMatView E0 refresh_nodata []
             (snd (ExecRefreshMatView E0 refresh_nodata [] w0))) = Inr ()
   \<and> rels (snd (ExecRefreshMatView E0 refresh_nodata [] w0)) 1
        = Some (view0\<lparr>rd_node := 2\<rparr>)
   \<and> map_option blocks (smgr (snd (ExecRefreshMatView E0 refresh_nodata [] w0)) 2) = Some []
   \<and> nextOid (snd (ExecRefreshMatView E0 refresh_nodata [] w0)) = 3"
  by (simp add: model_defs example_defs)

text \<open>
  Two no-data refreshes of the concrete view.
\<close>

theorem nodata_refresh_twice_witness:
  "skipData refresh_nodata \<and> resolve E0 (relation refresh_nodata) = Some 1
   \<and> rels w0 1 = Some view0 \<and> 1 < nextOid w0 \<and> rd_node view0 < nextOid w0
   \<and> fst (ExecRefreshMatView E0 refresh_nodata [] w0) = Inr ()
   \<and> fst (ExecRefreshMatView E0 refresh_nodata []
             (snd (ExecRefreshMatView E0 refresh_nodata [] w0))) = Inr ()
   \<and> rels (snd (ExecRefreshMatView E0 refresh_nodata []
             (snd (ExecRefreshMatView E0 refresh_nodata [] w0)))) 1
        = Some (view0\<lparr>rd_node := 3, rd_ispopulated := False\<rparr>)
   \<and> smgr (snd (ExecRefreshMatView E0 refresh_nodata []
             (snd (ExecRefreshMatView E0 refresh_nodata [] w0)))) 3 = Some empty_file"
proof -
  let ?w1 = "snd (ExecRefreshMatView E0 refresh_nodata [] w0)"
  let ?w2 = "snd (ExecRefreshMatView E0 refresh_nodata [] ?w1)"
  have sk: "skipData refresh_nodata" by (simp add: refresh_nodata_def)
  have v: "resolve E0 (relation refresh_nodata) = Some 1"
    by (simp add: E0_def refresh_nodata_def)
  have rd: "rels w0 1 = Some view0" by (simp add: w0_def)
  have fresh: "1 < nextOid w0" "rd_node view0 < nextOid w0"
    by (simp_all add: w0_def view0_def)
  have run1: "ExecRefreshMatView E0 refresh_nodata [] w0 = (Inr (), ?w1)"
    using run_nodata_twice by (simp add: prod_eq_iff)
  have run2: "ExecRefreshMatView E0 refresh_nodata [] ?w1 = (Inr (), ?w2)"
    using run_nodata_twice by (simp add: prod_eq_iff)
  have n1: "nextOid ?w1 = 3" using run_nodata_twice by simp
  from nodata_refresh_twice[OF sk v rd fresh run1 run2]
  have "rels ?w2 1 = Some (view0\<lparr>rd_node := 3, rd_ispopulated := False\<rparr>)
     \<and> smgr ?w2 3 = Some empty_file"
    unfolding n1 by simp
  with sk v rd fresh run_nodata_twice show ?thesis by simp
qed

text \<open>
  C6, as stated, fails: after a no-data refresh that returns, the concrete view is empty
  but not populated (the transition is only run by the receiver's startup, which a
  no-data refresh never reaches).
\<close>

theorem nodata_refresh_populated_counterexample:
  "fst (ExecRefreshMatView E0 refresh_nodata [] w0) = Inr ()
   \<and> skipData refresh_nodata
   \<and> map_option rd_ispopulated (rels (snd (ExecRefreshMatView E0 refresh_nodata [] w0)) 1)
        = Some False
   \<and> map_option blocks (smgr (snd (ExecRefreshMatView E0 refresh_nodata [] w0)) 2) = Some []"
  using run_nodata_twice by (simp add: refresh_nodata_def view0_def)

end
